theory Spec2Isabelle
  imports Main "HOL-Library.Word" "HOL-Library.Sublist"
begin

section \<open>Strings and numbers as the C++ library renders them\<close>

text \<open>
  \<open>std::to_string\<close> on an unsigned value and \<open>operator<<\<close> on a \<open>std::uint32_t\<close>
  both print the decimal digits of the number, most significant first, without padding.
\<close>

definition digit_char :: "nat \<Rightarrow> char" where
  "digit_char d = ''0123456789'' ! d"

fun to_string :: "nat \<Rightarrow> string" where
  "to_string n = (if n < 10 then [digit_char n] else to_string (n div 10) @ [digit_char (n mod 10)])"

declare to_string.simps [simp del]

text \<open>Reading the digits back; used only to show that the rendering loses nothing.\<close>

definition digit_val :: "char \<Rightarrow> nat" where
  "digit_val c = of_char c - of_char CHR ''0''"

definition from_string :: "string \<Rightarrow> nat" where
  "from_string s = foldl (\<lambda>a c. 10 * a + digit_val c) 0 s"

section \<open>cli.h: size constrained strings\<close>

text \<open>
  \<open>SizeConstrainedString<max>\<close> stores the string it is built from and throws
  \<open>std::logic_error\<close> from its constructor when the string is longer than \<open>max\<close>.
  The template parameter is the first argument of the constructor here; a thrown
  exception is the left summand of the result.
\<close>

datatype exception = Logic_error string

datatype SizeConstrainedString = Scs (as_string: string)

definition mk_SizeConstrainedString :: "nat \<Rightarrow> string \<Rightarrow> exception + SizeConstrainedString" where
  "mk_SizeConstrainedString mx s =
     (if length s > mx then Inl (Logic_error (''Max size exceeded '' @ to_string mx))
      else Inr (Scs s))"

text \<open>\<open>operator<\<close> and \<open>operator==\<close> compare the stored strings.\<close>

definition scs_less :: "SizeConstrainedString \<Rightarrow> SizeConstrainedString \<Rightarrow> bool" where
  "scs_less lhs rhs = ((as_string lhs, as_string rhs) \<in> lexord {(a, b). of_char a < (of_char b :: nat)})"

definition scs_eq :: "SizeConstrainedString \<Rightarrow> SizeConstrainedString \<Rightarrow> bool" where
  "scs_eq lhs rhs = (as_string lhs = as_string rhs)"

text \<open>The three instances: \<open>typedef SizeConstrainedString<20> Name\<close> and so on.\<close>

definition Name :: "string \<Rightarrow> exception + SizeConstrainedString" where
  "Name = mk_SizeConstrainedString 20"

definition Usage :: "string \<Rightarrow> exception + SizeConstrainedString" where
  "Usage = mk_SizeConstrainedString 60"

definition Description :: "string \<Rightarrow> exception + SizeConstrainedString" where
  "Description = mk_SizeConstrainedString 80"

section \<open>System configuration\<close>

text \<open>
  \<open>SystemConfiguration::instance()\<close> is declared in \<open>anbox/config.h\<close>, which is not among
  the sources; the two directories the code asks it for are fields of a record that every
  function reading them takes as an argument.
\<close>

record SystemConfiguration =
  socket_dir :: string
  input_device_dir :: string

section \<open>input/manager.cpp: the device manager\<close>

text \<open>
  \<open>Manager::next_id\<close> keeps its counter in a function-local \<open>static std::uint32_t\<close>,
  initialised to 0: one variable for the whole process, shared by every \<open>Manager\<close>.
  The model passes that variable in and out explicitly; \<open>return next_id++\<close> returns the
  old value and stores the successor, which wraps around at \<open>2 ^ 32\<close>.
\<close>

definition next_id_initial :: "32 word" where
  "next_id_initial = 0"

definition next_id :: "32 word \<Rightarrow> 32 word \<times> 32 word" where
  "next_id static = (static, static + 1)"

text \<open>\<open>boost::format("%1%/event%2%") % input_device_dir() % id\<close>.\<close>

definition build_device_path :: "SystemConfiguration \<Rightarrow> 32 word \<Rightarrow> string" where
  "build_device_path cfg ident = input_device_dir cfg @ ''/event'' @ to_string (unat ident)"

text \<open>
  \<open>Device::create(path, runtime)\<close> is declared in \<open>anbox/input/device.h\<close>, not among the
  sources; a device is the path it was created for. \<open>devices_\<close> (here \<open>devices\<close>) is a \<open>std::map\<close> from
  id to device, and \<open>std::map::insert\<close> keeps the old entry when the key is present.
\<close>

record Device =
  device_path :: string

record Manager =
  devices :: "32 word \<rightharpoonup> Device"

definition new_Manager :: Manager where
  "new_Manager = \<lparr>devices = Map.empty\<rparr>"

definition map_insert :: "('k \<rightharpoonup> 'v) \<Rightarrow> 'k \<Rightarrow> 'v \<Rightarrow> ('k \<rightharpoonup> 'v)" where
  "map_insert m k v = (case m k of None \<Rightarrow> m(k \<mapsto> v) | Some _ \<Rightarrow> m)"

definition create_device ::
  "SystemConfiguration \<Rightarrow> Manager \<Rightarrow> 32 word \<Rightarrow> Device \<times> Manager \<times> 32 word" where
  "create_device cfg m static =
     (let (ident, static') = next_id static;
          path = build_device_path cfg ident;
          device = \<lparr>device_path = path\<rparr>
      in (device, m\<lparr>devices := map_insert (devices m) ident device\<rparr>, static'))"

text \<open>
  A run of \<open>create_device\<close> calls in one process. Each call names the manager it is made
  on; the managers live in a store indexed by that name. The result lists, call by call,
  the id that \<open>next_id\<close> returned to the call and the device that the call returned.
\<close>

fun create_devices ::
  "SystemConfiguration \<Rightarrow> nat list \<Rightarrow> (nat \<Rightarrow> Manager) \<Rightarrow> 32 word
     \<Rightarrow> (32 word \<times> Device) list \<times> (nat \<Rightarrow> Manager) \<times> 32 word" where
  "create_devices cfg [] ms static = ([], ms, static)"
| "create_devices cfg (k # ks) ms static =
     (let (device, m', static') = create_device cfg (ms k) static;
          (rest, ms', static'') = create_devices cfg ks (ms(k := m')) static'
      in ((fst (next_id static), device) # rest, ms', static''))"

section \<open>What a run of the program does: events, outcomes\<close>

text \<open>
  The session command works through collaborators whose code is not among the sources
  (signal trap, runtime, dispatcher, container client, renderer, audio server, socket
  connectors, message bus). A run is recorded as the list of effects in program order.

  Log entries are the \<open>DEBUG\<close>, \<open>INFO\<close>, \<open>WARNING\<close> and \<open>ERROR\<close> macros with
  the format string of the source; the one argument the code formats into an entry, the
  number of a signal, is not rendered.
\<close>

datatype severity = Debug | Info | Warning | Error

text \<open>What the bodies of the two handlers of the source do: log, and stop the signal trap.\<close>

datatype effect = Log severity string | Trap_stop

text \<open>The enumerators of \<open>core::posix::Signal\<close> that the source names.\<close>

datatype Signal = sig_term | sig_int

text \<open>
  \<open>GLRendererServer::Config::Driver\<close>: the source names the enumerator \<open>Host\<close>, the
  description of the flag names the values 'host' and 'translator'.
\<close>

datatype Driver = Host | Translator

text \<open>
  \<open>container::Configuration\<close> is declared in a header that is not among the sources.
  Modelled from the spec: the bind mounts are an ordered sequence of pairs of a host path
  and a guest path, in the order of the initialiser.
\<close>

type_synonym BindMount = "string \<times> string"

record Configuration =
  bind_mounts :: "BindMount list"

text \<open>
  One constructor for each call into a collaborator, with the arguments that matter
  downstream. The two registration calls carry the body of the handler they install.
\<close>

datatype call =
    Trap_signals_for_process "Signal list"
  | Connect_signal_raised "effect list"
  | Ensure_paths "string list"
  | Runtime_create
  | Create_dispatcher_for_runtime
  | Container_client
  | Register_terminate_handler "effect list"
  | Android_api_stub
  | Platform_policy
  | Register_display_manager
  | Wm_manager
  | Launcher_storage
  | Gl_renderer_server Driver
  | Policy_set_renderer
  | Audio_server
  | Published_socket_connector string
  | Dispatch_start_container Configuration
  | Bus_factory
  | Install_executor
  | Service_create_for_bus
  | Runtime_start
  | Trap_run
  | Runtime_stop

datatype event =
    Called call
  | Fs_exists string bool
  | Effect effect
  | Cout string
  | Notified string string
  | Action_invoked "string list"

text \<open>
  An action returns an exit code, or leaves through an exception thrown by a call it
  made (the code has no \<open>try\<close> block of its own around these calls), or never returns
  because it blocks in the run loop of the signal trap. Calling a \<open>std::function\<close>
  that holds no target throws \<open>std::bad_function_call\<close>.
\<close>

datatype outcome = Returned int | Threw call | Threw_bad_function_call | Blocked

definition EXIT_SUCCESS :: int where
  "EXIT_SUCCESS = 0"

definition EXIT_FAILURE :: int where
  "EXIT_FAILURE = 1"

record 's action_result =
  trace :: "event list"
  outcome :: outcome
  members :: 's

text \<open>
  Straight-line calls: they are made in order until one throws. The result is the calls
  that completed, and the call that threw if one did. Whether a call throws is a
  parameter of the run.
\<close>

fun perform :: "(call \<Rightarrow> bool) \<Rightarrow> call list \<Rightarrow> event list \<times> call option" where
  "perform thr [] = ([], None)"
| "perform thr (c # cs) =
     (if thr c then ([], Some c)
      else (let (es, r) = perform thr cs in (Called c # es, r)))"

declare perform.simps [simp del]

section \<open>cli.cpp: commands with flags and an action\<close>

definition nl :: string where
  "nl = [CHR 0x0A]"

text \<open>
  A \<open>Flag::Ptr\<close>: the address that the shared pointer holds, and the flag it points to,
  with the virtual functions of its class as fields: \<open>Flag::with_value\<close> is
  false and \<open>ValueFlag::with_value\<close> true; \<open>notify\<close> is what a value flag does with
  the text given for it, here to the state \<open>'s\<close> the flag refers to. The member \<open>set_\<close>
  is the field \<open>is_set\<close>.
\<close>

record 's Flag =
  address :: nat
  flag_name :: SizeConstrainedString
  flag_description :: SizeConstrainedString
  is_set :: bool
  with_value :: bool
  notify :: "string \<Rightarrow> 's \<Rightarrow> 's"

record Context =
  args :: "string list"

text \<open>
  \<open>flags_\<close> is a \<open>std::set\<close> of shared pointers: its elements are kept in the order
  of the addresses, and \<open>insert\<close> leaves the set as it is when it holds the pointer
  already. The set is the list of its elements in the order of iteration.
\<close>

fun set_insert :: "'s Flag \<Rightarrow> 's Flag list \<Rightarrow> 's Flag list" where
  "set_insert f [] = [f]"
| "set_insert f (g # gs) =
     (if address f < address g then f # g # gs
      else if address g < address f then g # set_insert f gs
      else g # gs)"

record 's Command =
  name :: SizeConstrainedString
  usage :: SizeConstrainedString
  description :: SizeConstrainedString
  flags :: "'s Flag list"
  action :: "(Context \<Rightarrow> 's \<Rightarrow> 's action_result) option"

definition CommandWithFlagsAndAction ::
  "SizeConstrainedString \<Rightarrow> SizeConstrainedString \<Rightarrow> SizeConstrainedString \<Rightarrow> 's Command" where
  "CommandWithFlagsAndAction n u d =
     \<lparr>name = n, usage = u, description = d, flags = [], action = None\<rparr>"

definition flag :: "'s Flag \<Rightarrow> 's Command \<Rightarrow> 's Command" where
  "flag f cmd = cmd\<lparr>flags := set_insert f (flags cmd)\<rparr>"

definition install_action :: "(Context \<Rightarrow> 's \<Rightarrow> 's action_result) \<Rightarrow> 's Command \<Rightarrow> 's Command" where
  "install_action a cmd = cmd\<lparr>action := Some a\<rparr>"

text \<open>
  \<open>operator<<\<close> on a size constrained string: \<open>std::setw(max) << std::left\<close>, the
  string padded with blanks on the right to the width \<open>max\<close>.
\<close>

definition print_scs :: "nat \<Rightarrow> SizeConstrainedString \<Rightarrow> string" where
  "print_scs mx scs = as_string scs @ replicate (mx - length (as_string scs)) CHR '' ''"

definition help_for_command_with_subcommands :: "string \<Rightarrow> string \<Rightarrow> string \<Rightarrow> string" where
  "help_for_command_with_subcommands a1 a2 a3 =
     ''NAME:'' @ nl @ ''    '' @ a1 @ '' - '' @ a2 @ nl @ nl @
     ''USAGE:'' @ nl @ ''    '' @ a3 @ '' [command options] [arguments...]''"

definition option_line :: "'s Flag \<Rightarrow> string" where
  "option_line f = ''    --'' @ print_scs 20 (flag_name f) @ '' '' @ print_scs 80 (flag_description f)"

text \<open>\<open>CommandWithFlagsAndAction::help\<close>, writing to \<open>out\<close>.\<close>

definition help_out :: "'s Command \<Rightarrow> event list" where
  "help_out cmd =
     [Cout (help_for_command_with_subcommands
              (as_string (name cmd)) (as_string (description cmd)) (as_string (name cmd)) @ nl)]
     @ (if length (flags cmd) > 0
        then [Cout (nl @ ''OPTIONS:'' @ nl)] @ map (\<lambda>f. Cout (option_line f @ nl)) (flags cmd)
        else [])"

text \<open>
  Boost.Program_options is a library outside the repository. What \<open>run\<close> sees of it is the
  result of parsing and storing the arguments against the declared options: either a
  \<open>po::error\<close> with its message, or whether \<open>--help\<close> was given, the options found
  with their values in the order of the variables map, and the arguments left unrecognised.
  The parser is a parameter; it is given the declared options (name, and whether the
  option takes a value) and the arguments. An error is raised by parsing or storing,
  before \<open>po::notify\<close> calls any notifier.
\<close>

datatype po_result =
    Po_error string
  | Po_parsed bool "(string \<times> string) list" "string list"

type_synonym program_options = "(string \<times> bool) list \<Rightarrow> string list \<Rightarrow> po_result"

definition options_description :: "'s Flag list \<Rightarrow> (string \<times> bool) list" where
  "options_description fs = (''help'', False) # map (\<lambda>f. (as_string (flag_name f), with_value f)) fs"

text \<open>
  \<open>po::notify\<close> goes through the stored options and calls the notifier declared by
  \<open>add_to_desc_for_flags\<close> for each option of a value flag: \<open>vf->notify(s)\<close>.
\<close>

fun notify_all :: "'s Flag list \<Rightarrow> (string \<times> string) list \<Rightarrow> 's \<Rightarrow> 's \<times> event list" where
  "notify_all fs [] st = (st, [])"
| "notify_all fs ((k, v) # vm) st =
     (case find (\<lambda>f. with_value f \<and> as_string (flag_name f) = k) fs of
        None \<Rightarrow> notify_all fs vm st
      | Some f \<Rightarrow> (let (st', es) = notify_all fs vm (notify f v st) in (st', Notified k v # es)))"

definition mark_set :: "'s Flag \<Rightarrow> 's Flag" where
  "mark_set f = f\<lparr>is_set := True\<rparr>"

record 's run_result = "'s action_result" +
  flags_after :: "'s Flag list"

definition run :: "program_options \<Rightarrow> 's Command \<Rightarrow> Context \<Rightarrow> 's \<Rightarrow> 's run_result" where
  "run po cmd ctxt st =
     (case po (options_description (flags cmd)) (args ctxt) of
        Po_error what \<Rightarrow>
          \<lparr>trace = [Cout (what @ nl)] @ help_out cmd, outcome = Returned EXIT_FAILURE,
           members = st, flags_after = flags cmd\<rparr>
      | Po_parsed help_requested vm unrecognized \<Rightarrow>
          (let (st', notified) = notify_all (flags cmd) vm st in
           if help_requested then
             \<lparr>trace = notified @ help_out cmd, outcome = Returned EXIT_SUCCESS,
              members = st', flags_after = flags cmd\<rparr>
           else
             (let marked = map (\<lambda>f. if as_string (flag_name f) \<in> fst ` set vm then mark_set f else f)
                             (flags cmd);
                  r = (case action cmd of
                         None \<Rightarrow> \<lparr>trace = [], outcome = Threw_bad_function_call, members = st'\<rparr>
                       | Some a \<Rightarrow> a \<lparr>args = unrecognized\<rparr> st')
              in \<lparr>trace = notified @ [Action_invoked unrecognized] @ trace r, outcome = outcome r,
                  members = members r, flags_after = marked\<rparr>)))"

definition is_flag_set :: "'s Flag list \<Rightarrow> SizeConstrainedString \<Rightarrow> bool" where
  "is_flag_set fs n = (case find (\<lambda>f. scs_eq (flag_name f) n) fs of None \<Rightarrow> False | Some f \<Rightarrow> is_set f)"

section \<open>cmds/session_manager.cpp: the session command\<close>

text \<open>
  \<open>network::PublishedSocketConnector\<close> is not among the sources. The action reads one
  thing from a connector, \<open>socket_file()\<close>.
\<close>

record PublishedSocketConnector =
  socket_file :: string

text \<open>
  What the action reads from the machine it runs on: which paths exist
  (\<open>boost::filesystem::exists\<close>), the directories of the system configuration, the
  connector that publishing a socket at a path gives, the path of the socket that the
  audio server reports (\<open>audio::Server\<close> is not among the sources), which calls into
  collaborators throw, and what arrives while the action waits in the run loop of the
  signal trap.
\<close>

datatype async = Signal_raised Signal | Connection_lost

record Host =
  fs_exists :: "string \<Rightarrow> bool"
  system_configuration :: SystemConfiguration
  published_socket_connector :: "string \<Rightarrow> PublishedSocketConnector"
  audio_socket_file :: string
  throws :: "call \<Rightarrow> bool"
  pending :: "async list"

text \<open>The members of \<open>SessionManager\<close> that the two flags refer to.\<close>

record SessionManager_members =
  desktop_file_hint :: string
  gles_driver :: Driver

text \<open>The handler connected to \<open>trap->signal_raised()\<close>, and the terminate handler.\<close>

definition signal_raised_handler :: "effect list" where
  "signal_raised_handler = [Log Info ''Signal %i received. Good night.'', Trap_stop]"

definition terminate_handler :: "effect list" where
  "terminate_handler = [Log Warning ''Lost connection to container manager, terminating.'', Trap_stop]"

text \<open>
  Modelled from the spec: the signal trap and the termination callback, whose code is
  not among the sources. \<open>trap->run()\<close> blocks until \<open>trap->stop()\<close> is called; a
  trapped signal fires the handler connected to \<open>signal_raised\<close>, loss of the
  supervisory connection to the container fires the registered terminate handler. With
  nothing left to arrive and the trap not stopped, \<open>run\<close> never returns: \<open>None\<close>.
\<close>

definition fire :: "async \<Rightarrow> effect list" where
  "fire a = (case a of Signal_raised sig \<Rightarrow> signal_raised_handler | Connection_lost \<Rightarrow> terminate_handler)"

fun trap_run :: "(async \<Rightarrow> effect list) \<Rightarrow> async list \<Rightarrow> effect list option" where
  "trap_run f [] = None"
| "trap_run f (a # as) =
     (if Trap_stop \<in> set (f a) then Some (f a)
      else map_option ((@) (f a)) (trap_run f as))"

text \<open>
  The two connectors, published at \<open>utils::string_format("%s/qemu_pipe", socket_path)\<close>
  and at \<open>utils::string_format("%s/anbox_bridge", socket_path)\<close>.
\<close>

definition qemu_pipe_path :: "Host \<Rightarrow> string" where
  "qemu_pipe_path h = socket_dir (system_configuration h) @ ''/qemu_pipe''"

definition bridge_path :: "Host \<Rightarrow> string" where
  "bridge_path h = socket_dir (system_configuration h) @ ''/anbox_bridge''"

definition qemu_pipe_connector :: "Host \<Rightarrow> PublishedSocketConnector" where
  "qemu_pipe_connector h = published_socket_connector h (qemu_pipe_path h)"

definition bridge_connector :: "Host \<Rightarrow> PublishedSocketConnector" where
  "bridge_connector h = published_socket_connector h (bridge_path h)"

definition container_configuration :: "Host \<Rightarrow> Configuration" where
  "container_configuration h =
     \<lparr>bind_mounts =
        [(socket_file (qemu_pipe_connector h), ''/dev/qemu_pipe''),
         (socket_file (bridge_connector h), ''/dev/anbox_bridge''),
         (audio_socket_file h, ''/dev/anbox_audio''),
         (input_device_dir (system_configuration h), ''/dev/input''),
         (''/dev/binder'', ''/dev/binder''),
         (''/dev/ashmem'', ''/dev/ashmem''),
         (''/dev/fuse'', ''/dev/fuse'')]\<rparr>"

text \<open>
  The calls of the action from \<open>utils::ensure_paths\<close> to the creation of the bus
  skeleton, in program order. The constructor of \<open>input::Manager\<close> is the second
  \<open>ensure_paths\<close>. The renderer is configured with the value of \<open>gles_driver_\<close>.
\<close>

definition startup_calls :: "Host \<Rightarrow> Driver \<Rightarrow> call list" where
  "startup_calls h driver =
     [Ensure_paths [socket_dir (system_configuration h), input_device_dir (system_configuration h)],
      Runtime_create,
      Create_dispatcher_for_runtime,
      Container_client,
      Register_terminate_handler terminate_handler,
      Ensure_paths [input_device_dir (system_configuration h)],
      Android_api_stub,
      Platform_policy,
      Register_display_manager,
      Wm_manager,
      Launcher_storage,
      Gl_renderer_server driver,
      Policy_set_renderer,
      Audio_server,
      Published_socket_connector (qemu_pipe_path h),
      Published_socket_connector (bridge_path h),
      Dispatch_start_container (container_configuration h),
      Bus_factory,
      Install_executor,
      Service_create_for_bus]"

text \<open>The lambda installed by \<open>action(...)\<close> in the constructor.\<close>

definition session_action :: "Host \<Rightarrow> SessionManager_members \<Rightarrow> SessionManager_members action_result" where
  "session_action h sm =
     (case perform (throws h)
             [Trap_signals_for_process [sig_term, sig_int],
              Connect_signal_raised signal_raised_handler] of
        (es1, Some c) \<Rightarrow> \<lparr>trace = es1, outcome = Threw c, members = sm\<rparr>
      | (es1, None) \<Rightarrow>
          (let binder = fs_exists h ''/dev/binder'';
               es2 = es1 @ [Fs_exists ''/dev/binder'' binder]
                     @ (if binder then [Fs_exists ''/dev/ashmem'' (fs_exists h ''/dev/ashmem'')] else [])
           in
           if \<not> binder \<or> \<not> fs_exists h ''/dev/ashmem'' then
             \<lparr>trace = es2 @ [Effect (Log Error
                 ''Failed to start as either binder or ashmem kernel drivers are not loaded'')],
              outcome = Returned EXIT_FAILURE, members = sm\<rparr>
           else
             (let nvidia = fs_exists h ''/dev/nvidiactl'';
                  sm' = (if nvidia then sm\<lparr>gles_driver := Host\<rparr> else sm);
                  es3 = es2 @ [Fs_exists ''/dev/nvidiactl'' nvidia]
                        @ (if nvidia then [Effect (Log Info
                             ''Detected properietary nvidia driver; forcing use of the host EGL driver.'')]
                           else [])
              in
              case perform (throws h) (startup_calls h (gles_driver sm') @ [Runtime_start, Trap_run]) of
                (es4, Some c) \<Rightarrow> \<lparr>trace = es3 @ es4, outcome = Threw c, members = sm'\<rparr>
              | (es4, None) \<Rightarrow>
                  (case trap_run fire (pending h) of
                     None \<Rightarrow> \<lparr>trace = es3 @ es4, outcome = Blocked, members = sm'\<rparr>
                   | Some fired \<Rightarrow>
                       (case perform (throws h) [Runtime_stop] of
                          (es5, Some c) \<Rightarrow>
                            \<lparr>trace = es3 @ es4 @ map Effect fired @ es5, outcome = Threw c, members = sm'\<rparr>
                        | (es5, None) \<Rightarrow>
                            \<lparr>trace = es3 @ es4 @ map Effect fired @ es5,
                             outcome = Returned EXIT_SUCCESS, members = sm'\<rparr>)))))"

text \<open>
  Reading a trace: the configuration an event hands to the container start request, and
  the handler an event registers with the container client.
\<close>

fun dispatched :: "event \<Rightarrow> Configuration option" where
  "dispatched (Called (Dispatch_start_container cfg)) = Some cfg"
| "dispatched e = None"

fun registered :: "event \<Rightarrow> effect list option" where
  "registered (Called (Register_terminate_handler handler)) = Some handler"
| "registered e = None"

text \<open>The steps of the action that follow the dispatch of the container start.\<close>

definition after_dispatch :: "event \<Rightarrow> bool" where
  "after_dispatch e =
     (case e of
        Called c \<Rightarrow> c \<in> set [Bus_factory, Install_executor, Service_create_for_bus,
                            Runtime_start, Trap_run, Runtime_stop]
      | Effect x \<Rightarrow> True
      | _ \<Rightarrow> False)"

text \<open>
  \<open>TypedReferenceValueFlag<T>::notify\<close> is \<open>std::stringstream ss{s}; ss >> value\<close>.
  For a \<open>std::string\<close> that skips leading white space and reads up to the next white
  space; when nothing is left after skipping, the value stays as it was.
\<close>

definition isspace :: "char \<Rightarrow> bool" where
  "isspace c = (c \<in> set [CHR '' '', CHR 0x09, CHR 0x0A, CHR 0x0B, CHR 0x0C, CHR 0x0D])"

definition extract_string :: "string \<Rightarrow> string \<Rightarrow> string" where
  "extract_string s old =
     (let rest = dropWhile isspace s
      in if rest = [] then old else takeWhile (\<lambda>c. \<not> isspace c) rest)"

text \<open>
  \<open>make_flag(name, description, value)\<close> is \<open>std::make_shared\<close> of a value flag that
  writes to \<open>value\<close>; the address of the new object is the first argument.
\<close>

definition make_flag ::
  "nat \<Rightarrow> SizeConstrainedString \<Rightarrow> SizeConstrainedString \<Rightarrow> (string \<Rightarrow> 's \<Rightarrow> 's) \<Rightarrow> 's Flag" where
  "make_flag a n d write =
     \<lparr>address = a, flag_name = n, flag_description = d, is_set = False, with_value = True,
      notify = write\<rparr>"

text \<open>
  The constructor of \<open>SessionManager\<close>. Each \<open>cli::Name\<close>, \<open>cli::Usage\<close> and
  \<open>cli::Description\<close> it builds can throw. \<open>operator>>\<close> for the driver is declared with
  the renderer, not among the sources: it is the parameter \<open>read_driver\<close>, from the text
  and the old value to the new value. The last two parameters are the addresses at
  which the flag for the desktop file hint and the flag for the driver are allocated.
\<close>

definition bind_exception :: "exception + 'a \<Rightarrow> ('a \<Rightarrow> exception + 'b) \<Rightarrow> exception + 'b" where
  "bind_exception x f = (case x of Inl e \<Rightarrow> Inl e | Inr v \<Rightarrow> f v)"

definition SessionManager ::
  "(string \<Rightarrow> Driver \<Rightarrow> Driver) \<Rightarrow> Host \<Rightarrow> nat \<Rightarrow> nat
     \<Rightarrow> exception + SessionManager_members Command" where
  "SessionManager read_driver h a_hint a_driver =
     bind_exception (Name ''run'') (\<lambda>n.
     bind_exception (Usage ''run'') (\<lambda>u.
     bind_exception (Description ''Run the the anbox system'') (\<lambda>d.
     bind_exception (Name ''desktop_file_hint'') (\<lambda>n1.
     bind_exception (Description ''Desktop file hint for QtMir/Unity8'') (\<lambda>d1.
     bind_exception (Name ''gles-driver'') (\<lambda>n2.
     bind_exception (Description
         (''Which GLES driver to use. Possible values are 'host' or'translator'' @ [CHR 0x27])) (\<lambda>d2.
     Inr (install_action (\<lambda>ctxt. session_action h)
           (flag (make_flag a_driver n2 d2 (\<lambda>s sm. sm\<lparr>gles_driver := read_driver s (gles_driver sm)\<rparr>))
             (flag (make_flag a_hint n1 d1
                      (\<lambda>s sm. sm\<lparr>desktop_file_hint := extract_string s (desktop_file_hint sm)\<rparr>))
               (CommandWithFlagsAndAction n u d)))))))))))"

text \<open>Concrete inputs for the examples below: managers that have created nothing yet.\<close>

definition fresh_managers :: "nat \<Rightarrow> Manager" where
  "fresh_managers k = new_Manager"

definition example_configuration :: SystemConfiguration where
  "example_configuration =
     \<lparr>socket_dir = ''/run/user/1000/anbox/sockets'',
      input_device_dir = ''/run/user/1000/anbox/input''\<rparr>"

definition devices_present :: "string list \<Rightarrow> string \<Rightarrow> bool" where
  "devices_present ps p = (p \<in> set ps)"

definition no_throw :: "call \<Rightarrow> bool" where
  "no_throw c = False"

definition throws_only :: "call \<Rightarrow> call \<Rightarrow> bool" where
  "throws_only c c' = (c' = c)"

text \<open>A connector that reports the path it was published at.\<close>

definition new_PublishedSocketConnector :: "string \<Rightarrow> PublishedSocketConnector" where
  "new_PublishedSocketConnector path = \<lparr>socket_file = path\<rparr>"

definition example_host :: Host where
  "example_host =
     \<lparr>fs_exists = devices_present [''/dev/binder'', ''/dev/ashmem''],
      system_configuration = example_configuration,
      published_socket_connector = new_PublishedSocketConnector,
      audio_socket_file = ''/run/user/1000/anbox/sockets/anbox_audio'',
      throws = no_throw,
      pending = [Signal_raised sig_int]\<rparr>"

definition example_members :: SessionManager_members where
  "example_members = \<lparr>desktop_file_hint = [], gles_driver = Translator\<rparr>"

definition example_host_no_binder :: Host where
  "example_host_no_binder =
     example_host\<lparr>fs_exists := devices_present [''/dev/ashmem'', ''/dev/nvidiactl'']\<rparr>"

definition example_host_nvidia :: Host where
  "example_host_nvidia =
     example_host\<lparr>fs_exists := devices_present [''/dev/binder'', ''/dev/ashmem'', ''/dev/nvidiactl'']\<rparr>"

definition example_host_audio_throws :: Host where
  "example_host_audio_throws = example_host\<lparr>throws := throws_only Audio_server\<rparr>"

definition example_host_container_throws :: Host where
  "example_host_container_throws = example_host\<lparr>throws := throws_only Container_client\<rparr>"

definition example_host_connection_lost :: Host where
  "example_host_connection_lost = example_host\<lparr>pending := [Connection_lost, Signal_raised sig_term]\<rparr>"

text \<open>
  Concrete inputs for the examples about \<open>run\<close>. A parser that knows \<open>--help\<close> and
  \<open>--name=value\<close> for the declared options that take a value, leaves every other
  argument unrecognised, and raises an error for such an option given without a value;
  it gives the options found in the order of the arguments, and the examples name them in
  the order of the variables map, which is that of the names.
\<close>

definition example_option :: "(string \<times> bool) list \<Rightarrow> string \<Rightarrow> (string \<times> string) option" where
  "example_option opts a =
     (if take 2 a = ''--'' \<and> CHR ''='' \<in> set a
         \<and> (takeWhile (\<lambda>c. c \<noteq> CHR ''='') (drop 2 a), True) \<in> set opts
      then Some (takeWhile (\<lambda>c. c \<noteq> CHR ''='') (drop 2 a),
                 tl (dropWhile (\<lambda>c. c \<noteq> CHR ''='') (drop 2 a)))
      else None)"

definition example_po :: program_options where
  "example_po opts as =
     (case find (\<lambda>a. take 2 a = ''--'' \<and> (drop 2 a, True) \<in> set opts) as of
        Some a \<Rightarrow> Po_error (''the required argument for option '' @ a @ '' is missing'')
      | None \<Rightarrow>
          Po_parsed (''--help'' \<in> set as) (List.map_filter (example_option opts) as)
            (filter (\<lambda>a. a \<noteq> ''--help'' \<and> example_option opts a = None) as))"

text \<open>
  Modelled from the spec: the driver is selected by \<open>host\<close> or a translation mode. The
  reading used in the examples takes the two names and keeps the old value for any other
  text.
\<close>

definition example_read_driver :: "string \<Rightarrow> Driver \<Rightarrow> Driver" where
  "example_read_driver s old =
     (if s = ''host'' then Host else if s = ''translator'' then Translator else old)"

text \<open>
  The command that the constructor builds when the flag for the driver is allocated at
  the lower address, so that the set holds it first.
\<close>

definition example_command :: "SessionManager_members Command" where
  "example_command =
     (case SessionManager example_read_driver example_host 2 1 of
        Inr cmd \<Rightarrow> cmd
      | Inl e \<Rightarrow> CommandWithFlagsAndAction (Scs []) (Scs []) (Scs []))"

section \<open>Properties of the rendering\<close>

lemma digit_val_digit_char: "d < 10 \<Longrightarrow> digit_val (digit_char d) = d"
  by (auto simp: digit_val_def digit_char_def eval_nat_numeral less_Suc_eq)

lemma from_string_snoc: "from_string (s @ [c]) = 10 * from_string s + digit_val c"
  by (simp add: from_string_def)

lemma from_string_to_string: "from_string (to_string n) = n"
proof (induction n rule: to_string.induct)
  case (1 n)
  show ?case
  proof (cases "n < 10")
    case True
    then show ?thesis
      by (simp add: to_string.simps [of n] from_string_def digit_val_digit_char)
  next
    case False
    with 1 have "from_string (to_string (n div 10)) = n div 10" by simp
    with False show ?thesis
      by (simp add: to_string.simps [of n] from_string_snoc digit_val_digit_char)
  qed
qed

lemma to_string_inject: "to_string m = to_string n \<Longrightarrow> m = n"
  by (metis from_string_to_string)

section \<open>Properties of size constrained strings\<close>

text \<open>
  C10. Constructing a \<open>SizeConstrainedString<max>\<close> throws if and only if the size of
  the input exceeds \<open>max\<close>; otherwise the stored string is the input, so \<open>as_string\<close>
  returns the original string. The same holds for \<open>Name\<close> (20), \<open>Usage\<close> (60) and
  \<open>Description\<close> (80).
\<close>

theorem size_constrained_string_ctor:
  "((\<exists>e. mk_SizeConstrainedString mx s = Inl e) \<longleftrightarrow> length s > mx)
   \<and> (\<not> length s > mx \<longrightarrow>
        (\<exists>x. mk_SizeConstrainedString mx s = Inr x \<and> as_string x = s))
   \<and> ((\<exists>e. Name s = Inl e) \<longleftrightarrow> length s > 20)
   \<and> ((\<exists>e. Usage s = Inl e) \<longleftrightarrow> length s > 60)
   \<and> ((\<exists>e. Description s = Inl e) \<longleftrightarrow> length s > 80)
   \<and> (\<forall>x. Name s = Inr x \<or> Usage s = Inr x \<or> Description s = Inr x \<longrightarrow> as_string x = s)"
  by (auto simp: mk_SizeConstrainedString_def Name_def Usage_def Description_def)

theorem size_constrained_string_ctor_witness:
  "(\<exists>e. Name ''name_with_21_letters_'' = Inl e)
   \<and> (\<exists>x. Name ''run'' = Inr x \<and> as_string x = ''run'')
   \<and> (\<exists>x. mk_SizeConstrainedString 3 ''run'' = Inr x \<and> as_string x = ''run'')"
  using size_constrained_string_ctor [of 20 "''name_with_21_letters_''"]
    size_constrained_string_ctor [of 3 "''run''"]
    size_constrained_string_ctor [of 20 "''run''"]
  by (simp add: Name_def)

section \<open>Properties of the device manager\<close>

lemma create_device_eq:
  "create_device cfg m s =
     (\<lparr>device_path = build_device_path cfg s\<rparr>,
      m\<lparr>devices := map_insert (devices m) s \<lparr>device_path = build_device_path cfg s\<rparr>\<rparr>,
      s + 1)"
  by (simp add: create_device_def next_id_def Let_def)

lemma create_devices_Cons:
  "fst (create_devices cfg (k # ks) ms s) =
     (s, \<lparr>device_path = build_device_path cfg s\<rparr>)
       # fst (create_devices cfg ks
               (ms(k := (ms k)\<lparr>devices := map_insert (devices (ms k)) s
                                   \<lparr>device_path = build_device_path cfg s\<rparr>\<rparr>)) (s + 1))"
  by (simp add: create_device_eq next_id_def split: prod.splits)

lemma create_devices_ids:
  "map fst (fst (create_devices cfg ks ms s)) = map (\<lambda>i. s + of_nat i) [0..<length ks]"
proof (induction ks arbitrary: ms s)
  case Nil
  then show ?case by simp
next
  case (Cons k ks)
  have "map (\<lambda>i. s + of_nat i) [0..<length (k # ks)]
        = s # map (\<lambda>i. (s + 1) + of_nat i) [0..<length ks]"
    by (simp add: map_upt_Suc add.assoc del: upt_Suc)
  then show ?case
    by (simp only: create_devices_Cons list.map fst_conv Cons.IH)
qed

lemma create_devices_paths:
  "\<forall>x \<in> set (fst (create_devices cfg ks ms s)). device_path (snd x) = build_device_path cfg (fst x)"
proof (induction ks arbitrary: ms s)
  case Nil
  then show ?case by simp
next
  case (Cons k ks)
  then show ?case
    by (simp only: create_devices_Cons) simp
qed

lemma build_device_path_inject:
  assumes "build_device_path cfg a = build_device_path cfg b"
  shows "a = b"
proof -
  from assms have "to_string (unat a) = to_string (unat b)"
    by (simp add: build_device_path_def)
  then have "unat a = unat b" by (rule to_string_inject)
  then show ?thesis by (simp add: word_unat_eq_iff)
qed


lemma word32_of_nat_offset_inj_on:
  "n \<le> 2 ^ 32 \<Longrightarrow> inj_on (\<lambda>i. s + (of_nat i :: 32 word)) {0..<n}"
  by (rule inj_onI) (simp add: word_of_nat_eq_iff take_bit_nat_eq_self)

lemma word32_ids_wrap:
  assumes "2 ^ 32 < n"
  shows "\<not> distinct (map (\<lambda>i. s + (of_nat i :: 32 word)) [0..<n])"
proof
  let ?xs = "map (\<lambda>i. s + (of_nat i :: 32 word)) [0..<n]"
  assume d: "distinct ?xs"
  have w: "(of_nat (2 ^ 32) :: 32 word) = 0" by simp
  have len: "length ?xs = n" by simp
  have a: "?xs ! 0 = s" using assms by (simp only: nth_map length_upt nth_upt) simp
  have b: "?xs ! (2 ^ 32) = s" using assms w 
    by (simp only: nth_map length_upt nth_upt minus_nat.diff_0 add_0) simp
  from d have "\<And>i j. i < n \<Longrightarrow> j < n \<Longrightarrow> i \<noteq> j \<Longrightarrow> ?xs ! i \<noteq> ?xs ! j"
    unfolding distinct_conv_nth len by blast
  from this [of 0 "2 ^ 32"] assms a b show False by simp
qed

text \<open>
  C7, as the code has it. The counter of \<open>next_id\<close> is one variable of the process, shared
  by all managers: the ids handed out by a run of \<open>create_device\<close> calls count up from
  the counter's value at the start of the run, whichever managers the calls are made on.
  In a run of at most \<open>2 ^ 32\<close> calls the ids are pairwise distinct, and so are
  the device paths, each of the form \<open><input_device_dir>/event<id>\<close>.
\<close>

theorem create_devices_distinct:
  assumes "length ks \<le> 2 ^ 32"
  shows "map fst (fst (create_devices cfg ks ms s)) = map (\<lambda>i. s + of_nat i) [0..<length ks]
       \<and> distinct (map fst (fst (create_devices cfg ks ms s)))
       \<and> distinct (map (device_path \<circ> snd) (fst (create_devices cfg ks ms s)))
       \<and> (\<forall>x \<in> set (fst (create_devices cfg ks ms s)).
            device_path (snd x) = input_device_dir cfg @ ''/event'' @ to_string (unat (fst x)))"
proof -
  let ?r = "fst (create_devices cfg ks ms s)"
  have ids: "map fst ?r = map (\<lambda>i. s + of_nat i) [0..<length ks]"
    by (rule create_devices_ids)
  have d: "distinct (map fst ?r)"
    unfolding ids using assms
    by (simp add: distinct_map word32_of_nat_offset_inj_on del: upt_Suc)
  have p: "map (device_path \<circ> snd) ?r = map (build_device_path cfg) (map fst ?r)"
    using create_devices_paths [of cfg ks ms s] by simp
  have "inj_on (build_device_path cfg) (set (map fst ?r))"
    by (rule inj_onI) (rule build_device_path_inject)
  with d have "distinct (map (build_device_path cfg) (map fst ?r))"
    by (simp only: distinct_map [of "build_device_path cfg"])
  then have dp: "distinct (map (device_path \<circ> snd) ?r)"
    by (simp only: p)
  have f: "\<forall>x \<in> set ?r. device_path (snd x) = input_device_dir cfg @ ''/event'' @ to_string (unat (fst x))"
    using create_devices_paths [of cfg ks ms s] by (simp add: build_device_path_def)
  from ids d dp f show ?thesis by blast
qed

theorem create_devices_distinct_witness:
  "fst (create_devices example_configuration [0, 1, 0] fresh_managers next_id_initial)
     = [(0, \<lparr>device_path = ''/run/user/1000/anbox/input/event0''\<rparr>),
        (1, \<lparr>device_path = ''/run/user/1000/anbox/input/event1''\<rparr>),
        (2, \<lparr>device_path = ''/run/user/1000/anbox/input/event2''\<rparr>)]
   \<and> distinct (map (device_path \<circ> snd)
        (fst (create_devices example_configuration [0, 1, 0] fresh_managers next_id_initial)))"
  using create_devices_distinct [of "[0, 1, 0]" example_configuration fresh_managers next_id_initial]
  by (simp add: create_device_eq next_id_def build_device_path_def example_configuration_def
      next_id_initial_def to_string.simps digit_char_def)

text \<open>
  C7, as stated, fails on the code in two ways. The counter is not state of the manager:
  of two managers that have created nothing, the one that calls second is handed id 1,
  not the id 0 its own state would give, because \<open>create_device\<close> on the same fresh
  manager returns a different device once another manager has drawn an id. And the ids
  are not pairwise distinct in every run: the counter is 32 bits wide and call number
  \<open>2 ^ 32\<close> repeats id 0.
\<close>

theorem next_id_counter_counterexample:
  "map fst (fst (create_devices example_configuration [0, 1] fresh_managers next_id_initial)) = [0, 1]
   \<and> fst (create_device example_configuration new_Manager next_id_initial)
       \<noteq> fst (create_device example_configuration new_Manager
               (snd (snd (create_device example_configuration new_Manager next_id_initial))))
   \<and> \<not> distinct (map fst (fst (create_devices example_configuration (replicate (2 ^ 32 + 1) 0)
                                   fresh_managers next_id_initial)))"
proof -
  have a: "map fst (fst (create_devices example_configuration [0, 1] fresh_managers next_id_initial)) = [0, 1]"
    by (simp add: create_device_eq next_id_def next_id_initial_def)
  have b: "fst (create_device example_configuration new_Manager next_id_initial)
       \<noteq> fst (create_device example_configuration new_Manager
               (snd (snd (create_device example_configuration new_Manager next_id_initial))))"
    by (simp add: create_device_eq next_id_initial_def build_device_path_def to_string.simps digit_char_def)
  have c: "\<not> distinct (map fst (fst (create_devices example_configuration (replicate (2 ^ 32 + 1) 0)
                                   fresh_managers next_id_initial)))"
    by (simp only: create_devices_ids length_replicate) (rule word32_ids_wrap, simp)
  from a b c show ?thesis by blast
qed

section \<open>Properties of the session action\<close>

lemma perform_no_throw: "\<forall>c \<in> set cs. \<not> thr c \<Longrightarrow> perform thr cs = (map Called cs, None)"
  by (induction cs) (simp_all add: perform.simps)

lemma perform_None: "perform thr cs = (es, None) \<Longrightarrow> es = map Called cs \<and> (\<forall>c \<in> set cs. \<not> thr c)"
  by (induction cs arbitrary: es) (auto simp: perform.simps split: if_splits prod.splits)

lemma perform_Some:
  "perform thr cs = (es, Some c) \<Longrightarrow> thr c \<and> prefix (es @ [Called c]) (map Called cs) \<and> c \<in> set cs"
  by (induction cs arbitrary: es) (auto simp: perform.simps split: if_splits prod.splits)

lemma perform_calls: "perform thr cs = (es, r) \<Longrightarrow> prefix es (map Called cs)"
  by (induction cs arbitrary: es) (auto simp: perform.simps split: if_splits prod.splits)

lemma perform_no_throw_fun: "perform no_throw cs = (map Called cs, None)"
  by (rule perform_no_throw) (simp add: no_throw_def)

lemma startup_calls_throws: "startup_calls (h\<lparr>throws := t\<rparr>) d = startup_calls h d"
  by (simp add: startup_calls_def container_configuration_def qemu_pipe_connector_def
      bridge_connector_def qemu_pipe_path_def bridge_path_def)

lemma session_action_no_throw_trace:
  assumes "fs_exists h ''/dev/binder''" "fs_exists h ''/dev/ashmem''"
  shows "trace (session_action (h\<lparr>throws := no_throw\<rparr>) sm)
            = map Called [Trap_signals_for_process [sig_term, sig_int], Connect_signal_raised signal_raised_handler]
              @ [Fs_exists ''/dev/binder'' True, Fs_exists ''/dev/ashmem'' True,
                 Fs_exists ''/dev/nvidiactl'' (fs_exists h ''/dev/nvidiactl'')]
              @ (if fs_exists h ''/dev/nvidiactl'' then [Effect (Log Info
                ''Detected properietary nvidia driver; forcing use of the host EGL driver.'')] else [])
              @ map Called (startup_calls h (if fs_exists h ''/dev/nvidiactl'' then Host else gles_driver sm) @ [Runtime_start, Trap_run])
              @ (case trap_run fire (pending h) of None \<Rightarrow> [] | Some fired \<Rightarrow> map Effect fired @ [Called Runtime_stop])"
  using assms
  apply (simp only: session_action_def perform_no_throw_fun Let_def)
  apply (simp add: perform_no_throw_fun startup_calls_throws split: option.splits)
  done



lemma session_action_devices_present:
  assumes p1: "perform (throws h) [Trap_signals_for_process [sig_term, sig_int],
                 Connect_signal_raised signal_raised_handler] = (es1, None)"
    and b: "fs_exists h ''/dev/binder''" and a: "fs_exists h ''/dev/ashmem''"
    and p4: "perform (throws h)
               (startup_calls h (if fs_exists h ''/dev/nvidiactl'' then Host else gles_driver sm)
                 @ [Runtime_start, Trap_run]) = (es4, r4)"
  shows "session_action h sm =
          (let sm' = (if fs_exists h ''/dev/nvidiactl'' then sm\<lparr>gles_driver := Host\<rparr> else sm);
               es3 = es1 @ [Fs_exists ''/dev/binder'' True, Fs_exists ''/dev/ashmem'' True,
                        Fs_exists ''/dev/nvidiactl'' (fs_exists h ''/dev/nvidiactl'')]
                     @ (if fs_exists h ''/dev/nvidiactl'' then [Effect (Log Info
                          ''Detected properietary nvidia driver; forcing use of the host EGL driver.'')]
                        else [])
           in
           case r4 of
             Some c \<Rightarrow> \<lparr>trace = es3 @ es4, outcome = Threw c, members = sm'\<rparr>
           | None \<Rightarrow>
               (case trap_run fire (pending h) of
                  None \<Rightarrow> \<lparr>trace = es3 @ es4, outcome = Blocked, members = sm'\<rparr>
                | Some fired \<Rightarrow>
                    (if throws h Runtime_stop
                     then \<lparr>trace = es3 @ es4 @ map Effect fired, outcome = Threw Runtime_stop, members = sm'\<rparr>
                     else \<lparr>trace = es3 @ es4 @ map Effect fired @ [Called Runtime_stop],
                          outcome = Returned EXIT_SUCCESS, members = sm'\<rparr>)))"
proof (cases "fs_exists h ''/dev/nvidiactl''")
  case True
  with p4 have p4': "perform (throws h) (startup_calls h Host @ [Runtime_start, Trap_run]) = (es4, r4)"
    by simp
  have stop: "perform (throws h) [Runtime_stop] =
     (if throws h Runtime_stop then ([], Some Runtime_stop) else ([Called Runtime_stop], None))"
    by (simp add: perform.simps)
  show ?thesis
    by (cases r4)
       (simp_all add: session_action_def p1 Let_def b a True p4' stop split: option.splits)
next
  case False
  with p4 have p4': "perform (throws h) (startup_calls h (gles_driver sm) @ [Runtime_start, Trap_run]) = (es4, r4)"
    by simp
  have stop: "perform (throws h) [Runtime_stop] =
     (if throws h Runtime_stop then ([], Some Runtime_stop) else ([Called Runtime_stop], None))"
    by (simp add: perform.simps)
  show ?thesis
    by (cases r4)
       (simp_all add: session_action_def p1 Let_def b a False p4' stop split: option.splits)
qed


lemma session_action_first_throws:
  assumes "perform (throws h) [Trap_signals_for_process [sig_term, sig_int],
                 Connect_signal_raised signal_raised_handler] = (es1, Some c)"
  shows "session_action h sm = \<lparr>trace = es1, outcome = Threw c, members = sm\<rparr>"
  by (simp add: session_action_def assms)

lemma session_action_device_missing:
  assumes "perform (throws h) [Trap_signals_for_process [sig_term, sig_int],
                 Connect_signal_raised signal_raised_handler] = (es1, None)"
    and "\<not> fs_exists h ''/dev/binder'' \<or> \<not> fs_exists h ''/dev/ashmem''"
  shows "session_action h sm =
           \<lparr>trace = es1 @ [Fs_exists ''/dev/binder'' (fs_exists h ''/dev/binder'')]
                    @ (if fs_exists h ''/dev/binder'' then [Fs_exists ''/dev/ashmem'' False] else [])
                    @ [Effect (Log Error
                        ''Failed to start as either binder or ashmem kernel drivers are not loaded'')],
            outcome = Returned EXIT_FAILURE, members = sm\<rparr>"
  using assms(2) by (auto simp add: session_action_def assms(1) Let_def)

lemma threw_prefix:
  assumes thrown: "outcome (session_action h sm) = Threw c"
  shows "throws h c \<and>
         prefix (trace (session_action h sm) @ [Called c])
                (trace (session_action (h\<lparr>throws := no_throw\<rparr>) sm))"
proof -
  let ?first = "[Trap_signals_for_process [sig_term, sig_int], Connect_signal_raised signal_raised_handler]"
  let ?full = "trace (session_action (h\<lparr>throws := no_throw\<rparr>) sm)"
  obtain es1 r1 where p1: "perform (throws h) ?first = (es1, r1)"
    by (cases "perform (throws h) ?first")
  show ?thesis
  proof (cases r1)
    case (Some c1)
    from thrown have c: "c1 = c" and t: "trace (session_action h sm) = es1"
      using session_action_first_throws [of h es1 c1 sm] p1 Some by simp_all
    from p1 Some c have *: "throws h c" "prefix (es1 @ [Called c]) (map Called ?first)"
      using perform_Some [of "throws h" ?first es1 c] by (simp_all)
    have "prefix (map Called ?first) ?full"
      by (simp add: session_action_def perform_no_throw_fun Let_def split: option.splits)
    with *(2) have "prefix (es1 @ [Called c]) ?full"
      by (rule prefix_order.trans)
    with * t show ?thesis by simp
  next
    case r1: None
    have e1: "es1 = map Called ?first"
      using perform_None [of "throws h" ?first es1] p1 r1 by (simp)
    show ?thesis
    proof (cases "fs_exists h ''/dev/binder'' \<and> fs_exists h ''/dev/ashmem''")
      case False
      with thrown show ?thesis
        using session_action_device_missing [of h es1 sm] p1 r1 by simp
    next
      case True
      then have b: "fs_exists h ''/dev/binder''" and a: "fs_exists h ''/dev/ashmem''" by simp_all
      let ?calls = "startup_calls h (if fs_exists h ''/dev/nvidiactl'' then Host else gles_driver sm)
                      @ [Runtime_start, Trap_run]"
      define es3 where "es3 = es1 @ [Fs_exists ''/dev/binder'' True, Fs_exists ''/dev/ashmem'' True,
           Fs_exists ''/dev/nvidiactl'' (fs_exists h ''/dev/nvidiactl'')]
           @ (if fs_exists h ''/dev/nvidiactl'' then [Effect (Log Info
                ''Detected properietary nvidia driver; forcing use of the host EGL driver.'')] else [])"
      obtain es4 r4 where p4: "perform (throws h) ?calls = (es4, r4)"
        by (cases "perform (throws h) ?calls")
      have full: "?full = es3 @ map Called ?calls
              @ (case trap_run fire (pending h) of None \<Rightarrow> []
                 | Some fired \<Rightarrow> map Effect fired @ [Called Runtime_stop])"
        unfolding session_action_no_throw_trace [OF b a, of sm] es3_def e1 by simp
      note unfold = session_action_devices_present [OF p1 [unfolded r1] b a p4, folded es3_def]
      show ?thesis
      proof (cases r4)
        case (Some c4)
        with thrown have c: "c4 = c" and t: "trace (session_action h sm) = es3 @ es4"
          by (simp_all add: unfold Let_def)
        from p4 Some c have thr: "throws h c" and "prefix (es4 @ [Called c]) (map Called ?calls)"
          using perform_Some [of "throws h" ?calls es4 c] by (simp_all)
        then obtain zs where zs: "map Called ?calls = (es4 @ [Called c]) @ zs"
          by (auto elim: prefixE)
        have "prefix ((es3 @ es4) @ [Called c]) ?full"
          unfolding full zs by (rule prefixI [where zs = "zs @ (case trap_run fire (pending h) of None \<Rightarrow> []
                 | Some fired \<Rightarrow> map Effect fired @ [Called Runtime_stop])"]) simp
        with thr show ?thesis unfolding t by simp
      next
        case r4: None
        have e4: "es4 = map Called ?calls"
          using perform_None [of "throws h" ?calls es4] p4 r4 by (simp)
        show ?thesis
        proof (cases "trap_run fire (pending h)")
          case None
          with thrown show ?thesis
            by (simp add: unfold r4 Let_def)
        next
          case (Some fired)
          with thrown
          have "throws h Runtime_stop \<and> c = Runtime_stop
            \<and> trace (session_action h sm) = es3 @ es4 @ map Effect fired"
            by (simp add: unfold r4 Let_def split: if_splits)
          then show ?thesis unfolding full Some e4 by simp
        qed
      qed
    qed
  qed
qed

lemma perform_trap_registration:
  "perform (throws h) [Trap_signals_for_process [sig_term, sig_int],
                       Connect_signal_raised signal_raised_handler] =
     (if throws h (Trap_signals_for_process [sig_term, sig_int])
      then ([], Some (Trap_signals_for_process [sig_term, sig_int]))
      else if throws h (Connect_signal_raised signal_raised_handler)
      then ([Called (Trap_signals_for_process [sig_term, sig_int])],
            Some (Connect_signal_raised signal_raised_handler))
      else ([Called (Trap_signals_for_process [sig_term, sig_int]),
             Called (Connect_signal_raised signal_raised_handler)], None))"
  by (simp add: perform.simps)

lemma session_action_trace_shape:
  "(throws h (Trap_signals_for_process [sig_term, sig_int]) \<and>
      session_action h sm =
        \<lparr>trace = [], outcome = Threw (Trap_signals_for_process [sig_term, sig_int]), members = sm\<rparr>)
   \<or> (throws h (Connect_signal_raised signal_raised_handler) \<and>
      session_action h sm =
        \<lparr>trace = [Called (Trap_signals_for_process [sig_term, sig_int])],
         outcome = Threw (Connect_signal_raised signal_raised_handler), members = sm\<rparr>)
   \<or> (\<exists>rest. trace (session_action h sm) =
         Called (Trap_signals_for_process [sig_term, sig_int])
         # Called (Connect_signal_raised signal_raised_handler)
         # Fs_exists ''/dev/binder'' (fs_exists h ''/dev/binder'') # rest)"
proof -
  let ?T = "Trap_signals_for_process [sig_term, sig_int]"
  let ?C = "Connect_signal_raised signal_raised_handler"
  consider (t) "throws h ?T" | (c) "\<not> throws h ?T" "throws h ?C"
    | (m) "\<not> throws h ?T" "\<not> throws h ?C" "\<not> fs_exists h ''/dev/binder'' \<or> \<not> fs_exists h ''/dev/ashmem''"
    | (p) "\<not> throws h ?T" "\<not> throws h ?C" "fs_exists h ''/dev/binder''" "fs_exists h ''/dev/ashmem''"
    by blast
  then show ?thesis
  proof cases
    case t
    then show ?thesis
      using session_action_first_throws [of h "[]" ?T sm] by (simp add: perform_trap_registration)
  next
    case c
    then show ?thesis
      using session_action_first_throws [of h "[Called ?T]" ?C sm] by (simp add: perform_trap_registration)
  next
    case m
    then show ?thesis
      using session_action_device_missing [of h "[Called ?T, Called ?C]" sm]
      by (simp add: perform_trap_registration)
  next
    case p
    obtain es4 r4 where p4: "perform (throws h)
               (startup_calls h (if fs_exists h ''/dev/nvidiactl'' then Host else gles_driver sm)
                 @ [Runtime_start, Trap_run]) = (es4, r4)"
      by (cases "perform (throws h)
               (startup_calls h (if fs_exists h ''/dev/nvidiactl'' then Host else gles_driver sm)
                 @ [Runtime_start, Trap_run])")
    have p1: "perform (throws h) [?T, ?C] = ([Called ?T, Called ?C], None)"
      using p by (simp add: perform_trap_registration)
    show ?thesis
      unfolding session_action_devices_present [OF p1 p(3) p(4) p4]
      using p(3) by (simp add: Let_def split: option.splits)
  qed
qed


lemma example_host_no_binder_simps:
  "fs_exists example_host_no_binder = devices_present [''/dev/ashmem'', ''/dev/nvidiactl'']"
  "throws example_host_no_binder = no_throw"
  by (simp_all add: example_host_no_binder_def example_host_def)

lemma example_host_audio_throws_simps:
  "fs_exists example_host_audio_throws = devices_present [''/dev/binder'', ''/dev/ashmem'']"
  "throws example_host_audio_throws = throws_only Audio_server"
  "pending example_host_audio_throws = [Signal_raised sig_int]"
  "system_configuration example_host_audio_throws = example_configuration"
  by (simp_all add: example_host_audio_throws_def example_host_def)

lemma trap_run_fire: "trap_run fire (a # as) = Some (fire a)"
  by (cases a) (simp_all add: fire_def signal_raised_handler_def terminate_handler_def)

lemma trap_run_fire_iff: "trap_run fire as = None \<longleftrightarrow> as = []"
proof (cases as)
  case Nil
  then show ?thesis by simp
next
  case (Cons a as')
  then show ?thesis by (simp only: trap_run_fire) simp
qed

lemma prefix_split:
  assumes "prefix es (xs @ y # ys)" "y \<in> set es" "y \<notin> set xs"
  shows "\<exists>es'. es = xs @ y # es' \<and> prefix es' ys"
proof -
  from assms(1) consider "prefix es xs" | us where "es = xs @ us" "prefix us (y # ys)"
    by (auto simp: prefix_append)
  then show ?thesis
  proof cases
    case 1
    then have "set es \<subseteq> set xs" by (rule set_mono_prefix)
    with assms(2,3) show ?thesis by blast
  next
    case 2
    with assms(2,3) show ?thesis by (cases us) auto
  qed
qed

lemma map_filter_prefix: "prefix es xs \<Longrightarrow> prefix (List.map_filter f es) (List.map_filter f xs)"
  by (auto simp: prefix_def List.map_filter_def)

lemma prefix_singleton: "prefix xs [a] \<Longrightarrow> xs = [] \<or> xs = [a]"
  by (cases xs) auto

lemma session_action_trace_form:
  "\<exists>es1 es4.
     prefix es1 (map Called [Trap_signals_for_process [sig_term, sig_int],
                             Connect_signal_raised signal_raised_handler])
   \<and> prefix es4 (map Called (startup_calls h (gles_driver (members (session_action h sm)))
                               @ [Runtime_start, Trap_run]))
   \<and> (trace (session_action h sm) = es1
      \<or> trace (session_action h sm) =
           es1 @ [Fs_exists ''/dev/binder'' (fs_exists h ''/dev/binder'')]
               @ (if fs_exists h ''/dev/binder'' then [Fs_exists ''/dev/ashmem'' False] else [])
               @ [Effect (Log Error
                    ''Failed to start as either binder or ashmem kernel drivers are not loaded'')]
      \<or> (\<exists>tl. trace (session_action h sm) =
           es1 @ [Fs_exists ''/dev/binder'' True, Fs_exists ''/dev/ashmem'' True,
                  Fs_exists ''/dev/nvidiactl'' (fs_exists h ''/dev/nvidiactl'')]
               @ (if fs_exists h ''/dev/nvidiactl'' then [Effect (Log Info
                    ''Detected properietary nvidia driver; forcing use of the host EGL driver.'')]
                  else [])
               @ es4 @ tl
           \<and> (\<forall>e \<in> set tl. (\<exists>x. e = Effect x) \<or> e = Called Runtime_stop)))"
proof -
  let ?first = "[Trap_signals_for_process [sig_term, sig_int], Connect_signal_raised signal_raised_handler]"
  obtain es1 r1 where p1: "perform (throws h) ?first = (es1, r1)"
    by (cases "perform (throws h) ?first")
  have pre1: "prefix es1 (map Called ?first)"
    using perform_calls [OF p1] .
  show ?thesis
  proof (cases r1)
    case (Some c)
    then show ?thesis
      using session_action_first_throws [of h es1 c sm] p1 pre1 by auto
  next
    case None
    show ?thesis
    proof (cases "fs_exists h ''/dev/binder'' \<and> fs_exists h ''/dev/ashmem''")
      case False
      then show ?thesis
        using session_action_device_missing [of h es1 sm] p1 None pre1 by auto
    next
      case True
      then have b: "fs_exists h ''/dev/binder''" and a: "fs_exists h ''/dev/ashmem''" by simp_all
      let ?calls = "startup_calls h (if fs_exists h ''/dev/nvidiactl'' then Host else gles_driver sm)
                      @ [Runtime_start, Trap_run]"
      obtain es4 r4 where p4: "perform (throws h) ?calls = (es4, r4)"
        by (cases "perform (throws h) ?calls")
      have pre4: "prefix es4 (map Called ?calls)"
        using perform_calls [OF p4] .
      note unfold = session_action_devices_present [OF p1 [unfolded None] b a p4]
      have m: "gles_driver (members (session_action h sm)) =
                 (if fs_exists h ''/dev/nvidiactl'' then Host else gles_driver sm)"
        unfolding unfold by (simp add: Let_def split: option.splits)
      have t: "\<exists>tl. trace (session_action h sm) =
           es1 @ [Fs_exists ''/dev/binder'' True, Fs_exists ''/dev/ashmem'' True,
                  Fs_exists ''/dev/nvidiactl'' (fs_exists h ''/dev/nvidiactl'')]
               @ (if fs_exists h ''/dev/nvidiactl'' then [Effect (Log Info
                    ''Detected properietary nvidia driver; forcing use of the host EGL driver.'')]
                  else [])
               @ es4 @ tl
           \<and> (\<forall>e \<in> set tl. (\<exists>x. e = Effect x) \<or> e = Called Runtime_stop)"
        unfolding unfold by (auto simp add: Let_def split: option.splits)
      show ?thesis
        apply (rule exI [of _ es1], rule exI [of _ es4])
        using pre1 pre4 t by (simp only: m) blast
    qed
  qed
qed

lemma startup_calls_split:
  "startup_calls h d @ [Runtime_start, Trap_run] =
     take 16 (startup_calls h d) @ Dispatch_start_container (container_configuration h)
       # [Bus_factory, Install_executor, Service_create_for_bus, Runtime_start, Trap_run]"
  by (simp add: startup_calls_def)

lemma dispatched_before:
  "List.map_filter dispatched (map Called (take 16 (startup_calls h d))) = []"
  by (simp add: startup_calls_def List.map_filter_def)

lemma dispatched_startup:
  "List.map_filter dispatched (map Called (startup_calls h d @ [Runtime_start, Trap_run]))
     = [container_configuration h]"
  by (simp add: startup_calls_def List.map_filter_def)

lemma registered_startup:
  "List.map_filter registered (map Called (startup_calls h d @ [Runtime_start, Trap_run]))
     = [terminate_handler]"
  by (simp add: startup_calls_def List.map_filter_def)

lemma map_filter_Nil_iff: "List.map_filter f xs = [] \<longleftrightarrow> (\<forall>x \<in> set xs. f x = None)"
  by (auto simp: List.map_filter_def filter_empty_conv)

lemma map_filter_append: "List.map_filter f (xs @ ys) = List.map_filter f xs @ List.map_filter f ys"
  by (simp add: List.map_filter_def)

lemma trace_map_filter:
  assumes f_first: "List.map_filter f (map Called [Trap_signals_for_process [sig_term, sig_int],
                             Connect_signal_raised signal_raised_handler]) = []"
    and f_fs: "\<And>p b. f (Fs_exists p b) = None"
    and f_eff: "\<And>x. f (Effect x) = None"
    and f_stop: "f (Called Runtime_stop) = None"
  shows "prefix (List.map_filter f (trace (session_action h sm)))
           (List.map_filter f (map Called
              (startup_calls h (gles_driver (members (session_action h sm))) @ [Runtime_start, Trap_run])))"
proof -
  obtain es1 es4 where
    pre1: "prefix es1 (map Called [Trap_signals_for_process [sig_term, sig_int],
                             Connect_signal_raised signal_raised_handler])"
    and pre4: "prefix es4 (map Called (startup_calls h (gles_driver (members (session_action h sm)))
                               @ [Runtime_start, Trap_run]))"
    and form: "trace (session_action h sm) = es1
      \<or> trace (session_action h sm) =
           es1 @ [Fs_exists ''/dev/binder'' (fs_exists h ''/dev/binder'')]
               @ (if fs_exists h ''/dev/binder'' then [Fs_exists ''/dev/ashmem'' False] else [])
               @ [Effect (Log Error
                    ''Failed to start as either binder or ashmem kernel drivers are not loaded'')]
      \<or> (\<exists>tl. trace (session_action h sm) =
           es1 @ [Fs_exists ''/dev/binder'' True, Fs_exists ''/dev/ashmem'' True,
                  Fs_exists ''/dev/nvidiactl'' (fs_exists h ''/dev/nvidiactl'')]
               @ (if fs_exists h ''/dev/nvidiactl'' then [Effect (Log Info
                    ''Detected properietary nvidia driver; forcing use of the host EGL driver.'')]
                  else [])
               @ es4 @ tl
           \<and> (\<forall>e \<in> set tl. (\<exists>x. e = Effect x) \<or> e = Called Runtime_stop))"
    using session_action_trace_form [of h sm] by blast
  have e1: "List.map_filter f es1 = []"
    using map_filter_prefix [OF pre1, of f] by (simp only: f_first prefix_Nil)
  from form consider
      (a) "List.map_filter f (trace (session_action h sm)) = []"
    | (b) tl where "List.map_filter f (trace (session_action h sm)) = List.map_filter f es4 @ List.map_filter f tl"
          "\<forall>e \<in> set tl. (\<exists>x. e = Effect x) \<or> e = Called Runtime_stop"
    by (elim disjE exE conjE)
       (simp_all add: map_filter_append e1 f_fs f_eff)
  then show ?thesis
  proof cases
    case a
    then show ?thesis by simp
  next
    case b
    from b(2) have "List.map_filter f tl = []"
      by (auto simp: map_filter_Nil_iff f_eff f_stop)
    with b(1) show ?thesis using map_filter_prefix [OF pre4, of f] by simp
  qed
qed

lemma dispatched_trace:
  "List.map_filter dispatched (trace (session_action h sm)) = []
   \<or> List.map_filter dispatched (trace (session_action h sm)) = [container_configuration h]"
proof -
  have "prefix (List.map_filter dispatched (trace (session_action h sm))) [container_configuration h]"
    using trace_map_filter [of dispatched h sm] unfolding dispatched_startup by simp
  then show ?thesis by (rule prefix_singleton)
qed

lemma registered_trace:
  "List.map_filter registered (trace (session_action h sm)) = []
   \<or> List.map_filter registered (trace (session_action h sm)) = [terminate_handler]"
proof -
  have "prefix (List.map_filter registered (trace (session_action h sm))) [terminate_handler]"
    using trace_map_filter [of registered h sm] unfolding registered_startup by simp
  then show ?thesis by (rule prefix_singleton)
qed

lemma session_action_no_throw:
  assumes nt: "\<forall>c. \<not> throws h c"
    and b: "fs_exists h ''/dev/binder''" and a: "fs_exists h ''/dev/ashmem''"
  shows "session_action h sm =
     \<lparr>trace =
        [Called (Trap_signals_for_process [sig_term, sig_int]),
         Called (Connect_signal_raised signal_raised_handler),
         Fs_exists ''/dev/binder'' True, Fs_exists ''/dev/ashmem'' True,
         Fs_exists ''/dev/nvidiactl'' (fs_exists h ''/dev/nvidiactl'')]
        @ (if fs_exists h ''/dev/nvidiactl'' then [Effect (Log Info
             ''Detected properietary nvidia driver; forcing use of the host EGL driver.'')] else [])
        @ map Called (startup_calls h (if fs_exists h ''/dev/nvidiactl'' then Host else gles_driver sm)
                       @ [Runtime_start, Trap_run])
        @ (case trap_run fire (pending h) of None \<Rightarrow> []
           | Some fired \<Rightarrow> map Effect fired @ [Called Runtime_stop]),
      outcome = (case trap_run fire (pending h) of None \<Rightarrow> Blocked | Some fired \<Rightarrow> Returned EXIT_SUCCESS),
      members = (if fs_exists h ''/dev/nvidiactl'' then sm\<lparr>gles_driver := Host\<rparr> else sm)\<rparr>"
proof -
  have p1: "perform (throws h) [Trap_signals_for_process [sig_term, sig_int],
                 Connect_signal_raised signal_raised_handler] =
              ([Called (Trap_signals_for_process [sig_term, sig_int]),
                Called (Connect_signal_raised signal_raised_handler)], None)"
    using nt by (simp add: perform_trap_registration)
  have p4: "perform (throws h)
               (startup_calls h (if fs_exists h ''/dev/nvidiactl'' then Host else gles_driver sm)
                 @ [Runtime_start, Trap_run]) =
            (map Called (startup_calls h (if fs_exists h ''/dev/nvidiactl'' then Host else gles_driver sm)
                 @ [Runtime_start, Trap_run]), None)"
    using nt by (intro perform_no_throw) blast
  show ?thesis
    unfolding session_action_devices_present [OF p1 b a p4]
    using nt by (simp add: Let_def split: option.splits)
qed

lemma dispatched_unique:
  "Dispatch_start_container cfg \<in> set (startup_calls h d @ [Runtime_start, Trap_run])
     \<Longrightarrow> cfg = container_configuration h"
  by (simp add: startup_calls_def)

lemma dispatch_decomposition:
  assumes d: "Called (Dispatch_start_container cfg) \<in> set (trace (session_action h sm))"
  shows "cfg = container_configuration h \<and>
         (\<exists>pre post. trace (session_action h sm) = pre @ Called (Dispatch_start_container cfg) # post
            \<and> List.map_filter dispatched pre = []
            \<and> (\<forall>e \<in> set post. after_dispatch e))"
proof -
  let ?D = "Called (Dispatch_start_container cfg)"
  let ?calls = "startup_calls h (gles_driver (members (session_action h sm))) @ [Runtime_start, Trap_run]"
  obtain es1 es4 where
    pre1: "prefix es1 (map Called [Trap_signals_for_process [sig_term, sig_int],
                             Connect_signal_raised signal_raised_handler])"
    and pre4: "prefix es4 (map Called ?calls)"
    and form: "trace (session_action h sm) = es1
      \<or> trace (session_action h sm) =
           es1 @ [Fs_exists ''/dev/binder'' (fs_exists h ''/dev/binder'')]
               @ (if fs_exists h ''/dev/binder'' then [Fs_exists ''/dev/ashmem'' False] else [])
               @ [Effect (Log Error
                    ''Failed to start as either binder or ashmem kernel drivers are not loaded'')]
      \<or> (\<exists>tl. trace (session_action h sm) =
           es1 @ [Fs_exists ''/dev/binder'' True, Fs_exists ''/dev/ashmem'' True,
                  Fs_exists ''/dev/nvidiactl'' (fs_exists h ''/dev/nvidiactl'')]
               @ (if fs_exists h ''/dev/nvidiactl'' then [Effect (Log Info
                    ''Detected properietary nvidia driver; forcing use of the host EGL driver.'')]
                  else [])
               @ es4 @ tl
           \<and> (\<forall>e \<in> set tl. (\<exists>x. e = Effect x) \<or> e = Called Runtime_stop))"
    using session_action_trace_form [of h sm] by blast
  have n1: "?D \<notin> set es1"
    using set_mono_prefix [OF pre1] by auto
  have e1: "List.map_filter dispatched es1 = []"
    using set_mono_prefix [OF pre1] by (auto simp: map_filter_Nil_iff)
  from form d n1 obtain tl where
    t: "trace (session_action h sm) =
           es1 @ [Fs_exists ''/dev/binder'' True, Fs_exists ''/dev/ashmem'' True,
                  Fs_exists ''/dev/nvidiactl'' (fs_exists h ''/dev/nvidiactl'')]
               @ (if fs_exists h ''/dev/nvidiactl'' then [Effect (Log Info
                    ''Detected properietary nvidia driver; forcing use of the host EGL driver.'')]
                  else [])
               @ es4 @ tl"
    and tl: "\<forall>e \<in> set tl. (\<exists>x. e = Effect x) \<or> e = Called Runtime_stop"
    by (elim disjE exE conjE) (auto split: if_splits)
  from d n1 tl have in4: "?D \<in> set es4"
    unfolding t by (auto split: if_splits)
  with set_mono_prefix [OF pre4] have "Dispatch_start_container cfg \<in> set ?calls"
    by auto
  then have cfg: "cfg = container_configuration h"
    by (rule dispatched_unique)
  let ?A = "map Called (take 16 (startup_calls h (gles_driver (members (session_action h sm)))))"
  let ?B = "map Called [Bus_factory, Install_executor, Service_create_for_bus, Runtime_start, Trap_run]"
  have split: "map Called ?calls = ?A @ ?D # ?B"
    unfolding startup_calls_split cfg by simp
  have notA: "?D \<notin> set ?A"
    by (simp add: startup_calls_def)
  from prefix_split [OF pre4 [unfolded split] in4 notA]
  obtain es' where es4: "es4 = ?A @ ?D # es'" and pre': "prefix es' ?B"
    by blast
  let ?pre = "es1 @ [Fs_exists ''/dev/binder'' True, Fs_exists ''/dev/ashmem'' True,
                  Fs_exists ''/dev/nvidiactl'' (fs_exists h ''/dev/nvidiactl'')]
               @ (if fs_exists h ''/dev/nvidiactl'' then [Effect (Log Info
                    ''Detected properietary nvidia driver; forcing use of the host EGL driver.'')]
                  else []) @ ?A"
  have 1: "trace (session_action h sm) = ?pre @ ?D # (es' @ tl)"
    unfolding t es4 by simp
  have 2: "List.map_filter dispatched ?pre = []"
    by (simp add: map_filter_append e1 dispatched_before)
  have "\<forall>e \<in> set es'. after_dispatch e"
    using set_mono_prefix [OF pre'] by (auto simp: after_dispatch_def)
  with tl have 3: "\<forall>e \<in> set (es' @ tl). after_dispatch e"
    by (auto simp: after_dispatch_def)
  from cfg 1 2 3 show ?thesis by blast
qed

lemma example_host_simps:
  "fs_exists example_host = devices_present [''/dev/binder'', ''/dev/ashmem'']"
  "throws example_host = no_throw"
  "pending example_host = [Signal_raised sig_int]"
  "system_configuration example_host = example_configuration"
  "audio_socket_file example_host = ''/run/user/1000/anbox/sockets/anbox_audio''"
  "published_socket_connector example_host = new_PublishedSocketConnector"
  by (simp_all add: example_host_def)

lemma example_host_ok:
  "\<forall>c. \<not> throws example_host c"
  "fs_exists example_host ''/dev/binder''"
  "fs_exists example_host ''/dev/ashmem''"
  "\<not> fs_exists example_host ''/dev/nvidiactl''"
  by (simp_all add: example_host_simps no_throw_def devices_present_def)

lemma dispatched_startup_calls:
  "List.map_filter dispatched (map Called (startup_calls h d)) = [container_configuration h]"
  by (simp add: startup_calls_def List.map_filter_def)

lemma dispatched_effects: "List.map_filter dispatched (map Effect xs) = []"
  by (simp add: map_filter_Nil_iff)

lemma prefix_snoc_notin:
  assumes "prefix (es @ [e]) (xs @ [y])" "y \<notin> set xs"
  shows "y \<notin> set es"
proof -
  from assms(1) have "es @ [e] = xs @ [y] \<or> prefix (es @ [e]) xs"
    by (simp only: prefix_snoc)
  then show ?thesis
  proof
    assume "es @ [e] = xs @ [y]"
    then have "es = xs" by simp
    with assms(2) show ?thesis by simp
  next
    assume "prefix (es @ [e]) xs"
    then have "set (es @ [e]) \<subseteq> set xs" by (rule set_mono_prefix)
    with assms(2) show ?thesis by auto
  qed
qed

lemma trap_run_not_in_startup: "Called Trap_run \<notin> set (map Called (startup_calls h d @ [Runtime_start]))"
  by (simp add: startup_calls_def)

lemma reaches_trap_run:
  assumes reach: "Called Trap_run \<in> set (trace (session_action h sm))"
  shows "session_action h sm =
     \<lparr>trace =
        [Called (Trap_signals_for_process [sig_term, sig_int]),
         Called (Connect_signal_raised signal_raised_handler),
         Fs_exists ''/dev/binder'' True, Fs_exists ''/dev/ashmem'' True,
         Fs_exists ''/dev/nvidiactl'' (fs_exists h ''/dev/nvidiactl'')]
        @ (if fs_exists h ''/dev/nvidiactl'' then [Effect (Log Info
             ''Detected properietary nvidia driver; forcing use of the host EGL driver.'')] else [])
        @ map Called (startup_calls h (if fs_exists h ''/dev/nvidiactl'' then Host else gles_driver sm)
                       @ [Runtime_start, Trap_run])
        @ (case trap_run fire (pending h) of None \<Rightarrow> []
           | Some fired \<Rightarrow> map Effect fired @ (if throws h Runtime_stop then [] else [Called Runtime_stop])),
      outcome = (case trap_run fire (pending h) of None \<Rightarrow> Blocked
                 | Some fired \<Rightarrow> if throws h Runtime_stop then Threw Runtime_stop
                                 else Returned EXIT_SUCCESS),
      members = (if fs_exists h ''/dev/nvidiactl'' then sm\<lparr>gles_driver := Host\<rparr> else sm)\<rparr>"
proof -
  let ?T = "Trap_signals_for_process [sig_term, sig_int]"
  let ?C = "Connect_signal_raised signal_raised_handler"
  let ?calls = "startup_calls h (if fs_exists h ''/dev/nvidiactl'' then Host else gles_driver sm)
                  @ [Runtime_start, Trap_run]"
  consider (t) "throws h ?T" | (c) "\<not> throws h ?T" "throws h ?C"
    | (m) "\<not> throws h ?T" "\<not> throws h ?C" "\<not> fs_exists h ''/dev/binder'' \<or> \<not> fs_exists h ''/dev/ashmem''"
    | (p) "\<not> throws h ?T" "\<not> throws h ?C" "fs_exists h ''/dev/binder''" "fs_exists h ''/dev/ashmem''"
    by blast
  then show ?thesis
  proof cases
    case t
    with reach show ?thesis
      using session_action_first_throws [of h "[]" ?T sm] by (simp add: perform_trap_registration)
  next
    case c
    with reach show ?thesis
      using session_action_first_throws [of h "[Called ?T]" ?C sm] by (simp add: perform_trap_registration)
  next
    case m
    with reach show ?thesis
      using session_action_device_missing [of h "[Called ?T, Called ?C]" sm]
      by (auto simp add: perform_trap_registration split: if_splits)
  next
    case p
    have p1: "perform (throws h) [?T, ?C] = ([Called ?T, Called ?C], None)"
      using p by (simp add: perform_trap_registration)
    obtain es4 r4 where p4: "perform (throws h) ?calls = (es4, r4)"
      by (cases "perform (throws h) ?calls")
    note unfold = session_action_devices_present [OF p1 p(3) p(4) p4]
    show ?thesis
    proof (cases r4)
      case (Some c4)
      from perform_Some [OF p4 [unfolded Some]]
      have "prefix (es4 @ [Called c4]) (map Called (startup_calls h (if fs_exists h ''/dev/nvidiactl'' then Host else gles_driver sm) @ [Runtime_start]) @ [Called Trap_run])"
        by simp
      then have "Called Trap_run \<notin> set es4"
        using trap_run_not_in_startup by (rule prefix_snoc_notin)
      with reach show ?thesis
        unfolding unfold Some by (simp add: Let_def split: if_splits)
    next
      case None
      from perform_None [OF p4 [unfolded None]] have "es4 = map Called ?calls" by simp
      then show ?thesis
        unfolding unfold None by (simp add: Let_def split: option.splits)
    qed
  qed
qed

lemma members_session_action:
  "members (session_action h sm) =
     (if \<not> throws h (Trap_signals_for_process [sig_term, sig_int])
         \<and> \<not> throws h (Connect_signal_raised signal_raised_handler)
         \<and> fs_exists h ''/dev/binder'' \<and> fs_exists h ''/dev/ashmem'' \<and> fs_exists h ''/dev/nvidiactl''
      then sm\<lparr>gles_driver := Host\<rparr> else sm)"
proof -
  let ?T = "Trap_signals_for_process [sig_term, sig_int]"
  let ?C = "Connect_signal_raised signal_raised_handler"
  let ?calls = "startup_calls h (if fs_exists h ''/dev/nvidiactl'' then Host else gles_driver sm)
                  @ [Runtime_start, Trap_run]"
  consider (t) "throws h ?T" | (c) "\<not> throws h ?T" "throws h ?C"
    | (m) "\<not> throws h ?T" "\<not> throws h ?C" "\<not> fs_exists h ''/dev/binder'' \<or> \<not> fs_exists h ''/dev/ashmem''"
    | (p) "\<not> throws h ?T" "\<not> throws h ?C" "fs_exists h ''/dev/binder''" "fs_exists h ''/dev/ashmem''"
    by blast
  then show ?thesis
  proof cases
    case t
    then show ?thesis
      using session_action_first_throws [of h "[]" ?T sm] by (simp add: perform_trap_registration)
  next
    case c
    then show ?thesis
      using session_action_first_throws [of h "[Called ?T]" ?C sm] by (simp add: perform_trap_registration)
  next
    case m
    then show ?thesis
      using session_action_device_missing [of h "[Called ?T, Called ?C]" sm]
      by (auto simp add: perform_trap_registration)
  next
    case p
    have p1: "perform (throws h) [?T, ?C] = ([Called ?T, Called ?C], None)"
      using p by (simp add: perform_trap_registration)
    obtain es4 r4 where p4: "perform (throws h) ?calls = (es4, r4)"
      by (cases "perform (throws h) ?calls")
    show ?thesis
      unfolding session_action_devices_present [OF p1 p(3) p(4) p4]
      using p by (simp add: Let_def split: option.splits)
  qed
qed

lemma gl_renderer_driver:
  assumes "Called (Gl_renderer_server d) \<in> set (trace (session_action h sm))"
  shows "d = gles_driver (members (session_action h sm))"
proof -
  let ?G = "Called (Gl_renderer_server d)"
  let ?calls = "startup_calls h (gles_driver (members (session_action h sm))) @ [Runtime_start, Trap_run]"
  obtain es1 es4 where
    pre1: "prefix es1 (map Called [Trap_signals_for_process [sig_term, sig_int],
                             Connect_signal_raised signal_raised_handler])"
    and pre4: "prefix es4 (map Called ?calls)"
    and form: "trace (session_action h sm) = es1
      \<or> trace (session_action h sm) =
           es1 @ [Fs_exists ''/dev/binder'' (fs_exists h ''/dev/binder'')]
               @ (if fs_exists h ''/dev/binder'' then [Fs_exists ''/dev/ashmem'' False] else [])
               @ [Effect (Log Error
                    ''Failed to start as either binder or ashmem kernel drivers are not loaded'')]
      \<or> (\<exists>tl. trace (session_action h sm) =
           es1 @ [Fs_exists ''/dev/binder'' True, Fs_exists ''/dev/ashmem'' True,
                  Fs_exists ''/dev/nvidiactl'' (fs_exists h ''/dev/nvidiactl'')]
               @ (if fs_exists h ''/dev/nvidiactl'' then [Effect (Log Info
                    ''Detected properietary nvidia driver; forcing use of the host EGL driver.'')]
                  else [])
               @ es4 @ tl
           \<and> (\<forall>e \<in> set tl. (\<exists>x. e = Effect x) \<or> e = Called Runtime_stop))"
    using session_action_trace_form [of h sm] by blast
  have n1: "?G \<notin> set es1"
    using set_mono_prefix [OF pre1] by auto
  from form assms n1 have "?G \<in> set es4"
    by (elim disjE exE conjE) (auto split: if_splits)
  with set_mono_prefix [OF pre4] have "Gl_renderer_server d \<in> set ?calls"
    by auto
  then show ?thesis by (simp add: startup_calls_def)
qed

lemma example_host_nvidia_simps:
  "fs_exists example_host_nvidia = devices_present [''/dev/binder'', ''/dev/ashmem'', ''/dev/nvidiactl'']"
  "throws example_host_nvidia = no_throw"
  "pending example_host_nvidia = [Signal_raised sig_int]"
  by (simp_all add: example_host_nvidia_def example_host_def)

lemma example_host_connection_lost_simps:
  "fs_exists example_host_connection_lost = devices_present [''/dev/binder'', ''/dev/ashmem'']"
  "throws example_host_connection_lost = no_throw"
  "pending example_host_connection_lost = [Connection_lost, Signal_raised sig_term]"
  by (simp_all add: example_host_connection_lost_def example_host_def)

section \<open>Properties of commands with flags\<close>

lemma notify_all_events: "\<forall>e \<in> set (snd (notify_all fs vm st)). \<exists>k v. e = Notified k v"
  by (induction fs vm st rule: notify_all.induct) (auto split: option.splits prod.splits)



lemma perform_Some_split:
  "perform thr cs = (es, Some c) \<Longrightarrow>
     thr c \<and> (\<exists>post. map Called cs = es @ Called c # post) \<and> (\<forall>c'. Called c' \<in> set es \<longrightarrow> \<not> thr c')"
proof (induction cs arbitrary: es)
  case Nil
  then show ?case by (simp add: perform.simps)
next
  case (Cons a cs)
  show ?case
  proof (cases "thr a")
    case True
    with Cons.prems show ?thesis by (simp add: perform.simps)
  next
    case False
    with Cons.prems obtain es' where e: "es = Called a # es'" and p: "perform thr cs = (es', Some c)"
      by (auto simp: perform.simps split: prod.splits)
    from Cons.IH [OF p] False show ?thesis unfolding e by auto
  qed
qed

lemma first_failure_unique:
  assumes "xs @ a # ys = xs' @ a' # ys'"
    and "\<forall>e \<in> set xs. P e" "\<not> P a" "\<forall>e \<in> set xs'. P e" "\<not> P a'"
  shows "xs = xs' \<and> a = a'"
proof -
  have "takeWhile P (xs @ a # ys) = xs" using assms(2,3) by simp
  moreover have "takeWhile P (xs' @ a' # ys') = xs'" using assms(4,5) by simp
  ultimately have x: "xs = xs'" using assms(1) by simp
  with assms(1) show ?thesis by simp
qed


lemma perform_completed: "perform thr cs = (es, r) \<Longrightarrow> Called c' \<in> set es \<Longrightarrow> \<not> thr c'"
  by (induction cs arbitrary: es) (auto simp: perform.simps split: if_splits prod.splits)

lemma session_action_cases:
  obtains
    (trap_throws) "throws h (Trap_signals_for_process [sig_term, sig_int])"
      "session_action h sm =
         \<lparr>trace = [], outcome = Threw (Trap_signals_for_process [sig_term, sig_int]), members = sm\<rparr>"
  | (connect_throws) "\<not> throws h (Trap_signals_for_process [sig_term, sig_int])"
      "throws h (Connect_signal_raised signal_raised_handler)"
      "session_action h sm =
         \<lparr>trace = [Called (Trap_signals_for_process [sig_term, sig_int])],
          outcome = Threw (Connect_signal_raised signal_raised_handler), members = sm\<rparr>"
  | (device_missing) "\<not> throws h (Trap_signals_for_process [sig_term, sig_int])"
      "\<not> throws h (Connect_signal_raised signal_raised_handler)"
      "\<not> fs_exists h ''/dev/binder'' \<or> \<not> fs_exists h ''/dev/ashmem''"
      "session_action h sm =
           \<lparr>trace = [Called (Trap_signals_for_process [sig_term, sig_int]),
                     Called (Connect_signal_raised signal_raised_handler)]
                    @ [Fs_exists ''/dev/binder'' (fs_exists h ''/dev/binder'')]
                    @ (if fs_exists h ''/dev/binder'' then [Fs_exists ''/dev/ashmem'' False] else [])
                    @ [Effect (Log Error
                        ''Failed to start as either binder or ashmem kernel drivers are not loaded'')],
            outcome = Returned EXIT_FAILURE, members = sm\<rparr>"
  | (devices_present) es4 r4 where
      "\<not> throws h (Trap_signals_for_process [sig_term, sig_int])"
      "\<not> throws h (Connect_signal_raised signal_raised_handler)"
      "fs_exists h ''/dev/binder''" "fs_exists h ''/dev/ashmem''"
      "perform (throws h)
               (startup_calls h (if fs_exists h ''/dev/nvidiactl'' then Host else gles_driver sm)
                 @ [Runtime_start, Trap_run]) = (es4, r4)"
      "session_action h sm =
          (let sm' = (if fs_exists h ''/dev/nvidiactl'' then sm\<lparr>gles_driver := Host\<rparr> else sm);
               es3 = [Called (Trap_signals_for_process [sig_term, sig_int]),
                      Called (Connect_signal_raised signal_raised_handler)]
                     @ [Fs_exists ''/dev/binder'' True, Fs_exists ''/dev/ashmem'' True,
                        Fs_exists ''/dev/nvidiactl'' (fs_exists h ''/dev/nvidiactl'')]
                     @ (if fs_exists h ''/dev/nvidiactl'' then [Effect (Log Info
                          ''Detected properietary nvidia driver; forcing use of the host EGL driver.'')]
                        else [])
           in
           case r4 of
             Some c \<Rightarrow> \<lparr>trace = es3 @ es4, outcome = Threw c, members = sm'\<rparr>
           | None \<Rightarrow>
               (case trap_run fire (pending h) of
                  None \<Rightarrow> \<lparr>trace = es3 @ es4, outcome = Blocked, members = sm'\<rparr>
                | Some fired \<Rightarrow>
                    (if throws h Runtime_stop
                     then \<lparr>trace = es3 @ es4 @ map Effect fired, outcome = Threw Runtime_stop, members = sm'\<rparr>
                     else \<lparr>trace = es3 @ es4 @ map Effect fired @ [Called Runtime_stop],
                          outcome = Returned EXIT_SUCCESS, members = sm'\<rparr>)))"
proof -
  let ?T = "Trap_signals_for_process [sig_term, sig_int]"
  let ?C = "Connect_signal_raised signal_raised_handler"
  consider (t) "throws h ?T" | (c) "\<not> throws h ?T" "throws h ?C"
    | (m) "\<not> throws h ?T" "\<not> throws h ?C" "\<not> fs_exists h ''/dev/binder'' \<or> \<not> fs_exists h ''/dev/ashmem''"
    | (p) "\<not> throws h ?T" "\<not> throws h ?C" "fs_exists h ''/dev/binder''" "fs_exists h ''/dev/ashmem''"
    by blast
  then show ?thesis
  proof cases
    case t
    then show ?thesis
      using session_action_first_throws [of h "[]" ?T sm] trap_throws
      by (simp add: perform_trap_registration)
  next
    case c
    then show ?thesis
      using session_action_first_throws [of h "[Called ?T]" ?C sm] connect_throws
      by (simp add: perform_trap_registration)
  next
    case m
    then show ?thesis
      using session_action_device_missing [of h "[Called ?T, Called ?C]" sm] device_missing
      by (simp add: perform_trap_registration)
  next
    case p
    have p1: "perform (throws h) [?T, ?C] = ([Called ?T, Called ?C], None)"
      using p by (simp add: perform_trap_registration)
    obtain es4 r4 where p4: "perform (throws h)
               (startup_calls h (if fs_exists h ''/dev/nvidiactl'' then Host else gles_driver sm)
                 @ [Runtime_start, Trap_run]) = (es4, r4)"
      by (cases "perform (throws h)
               (startup_calls h (if fs_exists h ''/dev/nvidiactl'' then Host else gles_driver sm)
                 @ [Runtime_start, Trap_run])")
    show ?thesis
      by (rule devices_present [OF p p4]) (rule session_action_devices_present [OF p1 p(3) p(4) p4])
  qed
qed


lemma trace_calls_completed:
  assumes "Called c' \<in> set (trace (session_action h sm))"
  shows "\<not> throws h c'"
proof (cases h sm rule: session_action_cases)
  case trap_throws
  with assms show ?thesis by simp
next
  case connect_throws
  with assms show ?thesis by auto
next
  case device_missing
  with assms show ?thesis by (auto split: if_splits)
next
  case (devices_present es4 r4)
  note done4 = perform_completed [OF devices_present(5), of c']
  from assms devices_present(1,2) done4 show ?thesis
    unfolding devices_present(6)
    by (auto simp: Let_def split: option.splits if_splits)
qed

lemma session_action_no_throw_missing:
  assumes "\<not> fs_exists h ''/dev/binder'' \<or> \<not> fs_exists h ''/dev/ashmem''"
  shows "trace (session_action (h\<lparr>throws := no_throw\<rparr>) sm) =
           [Called (Trap_signals_for_process [sig_term, sig_int]),
            Called (Connect_signal_raised signal_raised_handler)]
           @ [Fs_exists ''/dev/binder'' (fs_exists h ''/dev/binder'')]
           @ (if fs_exists h ''/dev/binder'' then [Fs_exists ''/dev/ashmem'' False] else [])
           @ [Effect (Log Error
                ''Failed to start as either binder or ashmem kernel drivers are not loaded'')]"
  using session_action_device_missing
          [of "h\<lparr>throws := no_throw\<rparr>"
              "[Called (Trap_signals_for_process [sig_term, sig_int]),
                Called (Connect_signal_raised signal_raised_handler)]" sm] assms
  by (simp add: perform_no_throw_fun)

lemma not_thrown_full_trace:
  assumes "\<forall>c. outcome (session_action h sm) \<noteq> Threw c"
  shows "trace (session_action h sm) = trace (session_action (h\<lparr>throws := no_throw\<rparr>) sm)"
proof (cases h sm rule: session_action_cases)
  case trap_throws
  with assms show ?thesis by simp
next
  case connect_throws
  with assms show ?thesis by simp
next
  case device_missing
  then show ?thesis
    using session_action_no_throw_missing [of h sm] by simp
next
  case (devices_present es4 r4)
  note full = session_action_no_throw_trace [OF devices_present(3,4), of sm]
  show ?thesis
  proof (cases r4)
    case (Some c)
    with assms show ?thesis unfolding devices_present(6) by (simp add: Let_def)
  next
    case None
    from perform_None [OF devices_present(5) [unfolded None]]
    have e4: "es4 = map Called (startup_calls h (if fs_exists h ''/dev/nvidiactl'' then Host else gles_driver sm)
                 @ [Runtime_start, Trap_run])"
      by simp
    from assms show ?thesis
      unfolding full devices_present(6) None e4
      by (simp add: Let_def split: option.splits if_splits)
  qed
qed

lemma first_throw_aborts:
  assumes full: "trace (session_action (h\<lparr>throws := no_throw\<rparr>) sm) = pre @ Called c # post"
    and thr: "throws h c"
    and before: "\<forall>c'. Called c' \<in> set pre \<longrightarrow> \<not> throws h c'"
  shows "trace (session_action h sm) = pre \<and> outcome (session_action h sm) = Threw c"
proof -
  let ?r = "session_action h sm"
  let ?P = "\<lambda>e. \<forall>c. e = Called c \<longrightarrow> \<not> throws h c"
  have "\<exists>c0. outcome ?r = Threw c0"
  proof (rule ccontr)
    assume "\<not> (\<exists>c0. outcome ?r = Threw c0)"
    then have "trace ?r = pre @ Called c # post"
      using not_thrown_full_trace [of h sm] full by simp
    then have "Called c \<in> set (trace ?r)" by simp
    then have "\<not> throws h c" by (rule trace_calls_completed)
    with thr show False by simp
  qed
  then obtain c0 where o: "outcome ?r = Threw c0" by blast
  from threw_prefix [OF o] have t0: "throws h c0"
    and "prefix (trace ?r @ [Called c0]) (pre @ Called c # post)"
    unfolding full by simp_all
  then obtain zs where "pre @ Called c # post = trace ?r @ Called c0 # zs"
    by (auto simp: prefix_def)
  moreover have "\<forall>e \<in> set pre. ?P e" using before by blast
  moreover have "\<not> ?P (Called c)" using thr by simp
  moreover have "\<forall>e \<in> set (trace ?r). ?P e" using trace_calls_completed [of _ h sm] by blast
  moreover have "\<not> ?P (Called c0)" using t0 by simp
  ultimately have "pre = trace ?r \<and> Called c = Called c0"
    by (rule first_failure_unique)
  with o show ?thesis by simp
qed

lemma example_host_container_throws_simps:
  "fs_exists example_host_container_throws = devices_present [''/dev/binder'', ''/dev/ashmem'']"
  "throws example_host_container_throws = throws_only Container_client"
  "pending example_host_container_throws = [Signal_raised sig_int]"
  "system_configuration example_host_container_throws = example_configuration"
  "audio_socket_file example_host_container_throws = ''/run/user/1000/anbox/sockets/anbox_audio''"
  "published_socket_connector example_host_container_throws = new_PublishedSocketConnector"
  by (simp_all add: example_host_container_throws_def example_host_def)

lemma example_host_container_throws_full_trace:
  "trace (session_action (example_host_container_throws\<lparr>throws := no_throw\<rparr>) example_members) =
     [Called (Trap_signals_for_process [sig_term, sig_int]),
      Called (Connect_signal_raised [Log Info ''Signal %i received. Good night.'', Trap_stop]),
      Fs_exists ''/dev/binder'' True,
      Fs_exists ''/dev/ashmem'' True,
      Fs_exists ''/dev/nvidiactl'' False,
      Called (Ensure_paths [''/run/user/1000/anbox/sockets'', ''/run/user/1000/anbox/input'']),
      Called Runtime_create,
      Called Create_dispatcher_for_runtime]
     @ Called Container_client
     # [Called (Register_terminate_handler
                 [Log Warning ''Lost connection to container manager, terminating.'', Trap_stop]),
        Called (Ensure_paths [''/run/user/1000/anbox/input'']),
        Called Android_api_stub,
        Called Platform_policy,
        Called Register_display_manager,
        Called Wm_manager,
        Called Launcher_storage,
        Called (Gl_renderer_server Translator),
        Called Policy_set_renderer,
        Called Audio_server,
        Called (Published_socket_connector ''/run/user/1000/anbox/sockets/qemu_pipe''),
        Called (Published_socket_connector ''/run/user/1000/anbox/sockets/anbox_bridge''),
        Called (Dispatch_start_container
          \<lparr>bind_mounts =
             [(''/run/user/1000/anbox/sockets/qemu_pipe'', ''/dev/qemu_pipe''),
              (''/run/user/1000/anbox/sockets/anbox_bridge'', ''/dev/anbox_bridge''),
              (''/run/user/1000/anbox/sockets/anbox_audio'', ''/dev/anbox_audio''),
              (''/run/user/1000/anbox/input'', ''/dev/input''),
              (''/dev/binder'', ''/dev/binder''),
              (''/dev/ashmem'', ''/dev/ashmem''),
              (''/dev/fuse'', ''/dev/fuse'')]\<rparr>),
        Called Bus_factory,
        Called Install_executor,
        Called Service_create_for_bus,
        Called Runtime_start,
        Called Trap_run,
        Effect (Log Info ''Signal %i received. Good night.''),
        Effect Trap_stop,
        Called Runtime_stop]"
proof -
  have b: "fs_exists example_host_container_throws ''/dev/binder''"
    and a: "fs_exists example_host_container_throws ''/dev/ashmem''"
    by (simp_all add: example_host_container_throws_simps devices_present_def)
  have f: "trap_run fire (pending example_host_container_throws) = Some signal_raised_handler"
    by (simp only: example_host_container_throws_simps trap_run_fire) (simp add: fire_def)
  show ?thesis
    unfolding session_action_no_throw_trace [OF b a] f
    by (simp add: example_host_container_throws_simps devices_present_def startup_calls_def
        example_members_def example_configuration_def container_configuration_def
        qemu_pipe_connector_def bridge_connector_def qemu_pipe_path_def bridge_path_def
        new_PublishedSocketConnector_def signal_raised_handler_def terminate_handler_def)
qed

lemma set_insert_subset: "set (set_insert f fs) \<subseteq> insert f (set fs)"
  by (induction fs) auto

lemma set_insert_addresses:
  "address ` set (set_insert f fs) = insert (address f) (address ` set fs)"
  by (induction fs) auto

lemma set_insert_sorted:
  "sorted_wrt (\<lambda>f g. address f < address g) fs \<Longrightarrow>
     sorted_wrt (\<lambda>f g. address f < address g) (set_insert f fs)"
proof (induction fs)
  case Nil
  then show ?case by simp
next
  case (Cons g gs)
  show ?case
  proof (cases "address f < address g")
    case True
    with Cons.prems show ?thesis by auto
  next
    case False
    show ?thesis
    proof (cases "address g < address f")
      case True
      have "\<forall>x \<in> set (set_insert f gs). address g < address x"
        using set_insert_subset [of f gs] Cons.prems True by auto
      with Cons True False show ?thesis by simp
    next
      case n: False
      with False Cons.prems show ?thesis by simp
    qed
  qed
qed

lemma set_insert_twice: "set_insert f (set_insert f fs) = set_insert f fs"
  by (induction fs) auto

lemma set_insert_present:
  "address f \<in> address ` set fs \<Longrightarrow> sorted_wrt (\<lambda>f g. address f < address g) fs \<Longrightarrow>
     set_insert f fs = fs"
  by (induction fs) auto

lemma SessionManager_eq:
  "SessionManager read_driver h a_hint a_driver =
     Inr \<lparr>name = Scs ''run'', usage = Scs ''run'', description = Scs ''Run the the anbox system'',
          flags =
            set_insert
              \<lparr>address = a_driver, flag_name = Scs ''gles-driver'',
               flag_description = Scs (''Which GLES driver to use. Possible values are 'host' or'translator'' @ [CHR 0x27]),
               is_set = False, with_value = True,
               notify = (\<lambda>s sm. sm\<lparr>gles_driver := read_driver s (gles_driver sm)\<rparr>)\<rparr>
              [\<lparr>address = a_hint, flag_name = Scs ''desktop_file_hint'',
                flag_description = Scs ''Desktop file hint for QtMir/Unity8'',
                is_set = False, with_value = True,
                notify = (\<lambda>s sm. sm\<lparr>desktop_file_hint := extract_string s (desktop_file_hint sm)\<rparr>)\<rparr>],
          action = Some (\<lambda>ctxt. session_action h)\<rparr>"
  by (simp add: SessionManager_def bind_exception_def Name_def Usage_def Description_def
      mk_SizeConstrainedString_def install_action_def flag_def make_flag_def
      CommandWithFlagsAndAction_def del: set_insert.simps(2))

lemma SessionManager_flags:
  assumes "a_hint \<noteq> a_driver"
  shows "SessionManager read_driver h a_hint a_driver =
     Inr \<lparr>name = Scs ''run'', usage = Scs ''run'', description = Scs ''Run the the anbox system'',
          flags =
            (if a_hint < a_driver
             then [\<lparr>address = a_hint, flag_name = Scs ''desktop_file_hint'',
                    flag_description = Scs ''Desktop file hint for QtMir/Unity8'',
                    is_set = False, with_value = True,
                    notify = (\<lambda>s sm. sm\<lparr>desktop_file_hint := extract_string s (desktop_file_hint sm)\<rparr>)\<rparr>,
                   \<lparr>address = a_driver, flag_name = Scs ''gles-driver'',
                    flag_description = Scs (''Which GLES driver to use. Possible values are 'host' or'translator'' @ [CHR 0x27]),
                    is_set = False, with_value = True,
                    notify = (\<lambda>s sm. sm\<lparr>gles_driver := read_driver s (gles_driver sm)\<rparr>)\<rparr>]
             else [\<lparr>address = a_driver, flag_name = Scs ''gles-driver'',
                    flag_description = Scs (''Which GLES driver to use. Possible values are 'host' or'translator'' @ [CHR 0x27]),
                    is_set = False, with_value = True,
                    notify = (\<lambda>s sm. sm\<lparr>gles_driver := read_driver s (gles_driver sm)\<rparr>)\<rparr>,
                   \<lparr>address = a_hint, flag_name = Scs ''desktop_file_hint'',
                    flag_description = Scs ''Desktop file hint for QtMir/Unity8'',
                    is_set = False, with_value = True,
                    notify = (\<lambda>s sm. sm\<lparr>desktop_file_hint := extract_string s (desktop_file_hint sm)\<rparr>)\<rparr>]),
          action = Some (\<lambda>ctxt. session_action h)\<rparr>"
  using assms by (simp add: SessionManager_eq)


lemma isspace_iff:
  "isspace c \<longleftrightarrow> c \<in> {CHR '' '', CHR 0x09, CHR 0x0A, CHR 0x0B, CHR 0x0C, CHR 0x0D}"
  by (simp add: isspace_def)

lemma extract_string_word:
  assumes "\<forall>c \<in> set pre. isspace c" "w \<noteq> []" "\<forall>c \<in> set w. \<not> isspace c"
    "post = [] \<or> isspace (hd post)"
  shows "extract_string (pre @ w @ post) old = w"
proof -
  from assms(2) obtain x xs where w: "w = x # xs" by (cases w) auto
  with assms(3) have x: "\<not> isspace x" by simp
  have d: "dropWhile isspace (pre @ w @ post) = w @ post"
    using assms(1) x unfolding w by simp
  have t: "takeWhile (\<lambda>c. \<not> isspace c) (w @ post) = w"
    using assms(3,4) by (cases post) simp_all
  show ?thesis
    using assms(2) by (simp add: extract_string_def Let_def d t)
qed

lemma extract_string_blank:
  assumes "\<forall>c \<in> set v. isspace c"
  shows "extract_string v old = old"
  using assms by (simp add: extract_string_def Let_def)

lemma run_parsed:
  assumes "action cmd = Some a"
    and "po (options_description (flags cmd)) (args ctxt) = Po_parsed False vm unrecognized"
  shows "trace (run po cmd ctxt st) =
           snd (notify_all (flags cmd) vm st) @ [Action_invoked unrecognized]
           @ trace (a \<lparr>args = unrecognized\<rparr> (fst (notify_all (flags cmd) vm st)))"
    and "outcome (run po cmd ctxt st) = outcome (a \<lparr>args = unrecognized\<rparr> (fst (notify_all (flags cmd) vm st)))"
    and "members (run po cmd ctxt st) = members (a \<lparr>args = unrecognized\<rparr> (fst (notify_all (flags cmd) vm st)))"
  using assms by (simp_all add: run_def Let_def split: prod.splits)

lemma session_action_first_step:
  assumes "\<not> throws h (Trap_signals_for_process [sig_term, sig_int])"
  shows "\<exists>rest. trace (session_action h sm) = Called (Trap_signals_for_process [sig_term, sig_int]) # rest"
proof -
  from session_action_trace_shape [of h sm] assms
  consider "session_action h sm =
        \<lparr>trace = [Called (Trap_signals_for_process [sig_term, sig_int])],
         outcome = Threw (Connect_signal_raised signal_raised_handler), members = sm\<rparr>"
    | rest where "trace (session_action h sm) =
         Called (Trap_signals_for_process [sig_term, sig_int])
         # Called (Connect_signal_raised signal_raised_handler)
         # Fs_exists ''/dev/binder'' (fs_exists h ''/dev/binder'') # rest"
    by (elim disjE conjE exE) simp_all
  then show ?thesis
  proof cases
    case 1
    then show ?thesis by simp
  next
    case 2
    then show ?thesis by simp
  qed
qed


section \<open>The claims about the session action\<close>

text \<open>
  C1. If \<open>/dev/binder\<close> or \<open>/dev/ashmem\<close> does not exist when the action runs, the
  container start is never dispatched: the only calls the action makes are the two that
  register the signal trap. The action does not block and never returns success; when
  the two registration calls complete it logs the diagnostic as its last effect and
  returns \<open>EXIT_FAILURE\<close>, which is not zero.
\<close>

theorem missing_device_aborts_before_dispatch:
  assumes "\<not> fs_exists h ''/dev/binder'' \<or> \<not> fs_exists h ''/dev/ashmem''"
  shows "(\<forall>c. Called c \<in> set (trace (session_action h sm)) \<longrightarrow>
            c = Trap_signals_for_process [sig_term, sig_int] \<or> c = Connect_signal_raised signal_raised_handler)
       \<and> (\<forall>cfg. Called (Dispatch_start_container cfg) \<notin> set (trace (session_action h sm)))
       \<and> outcome (session_action h sm) \<noteq> Blocked
       \<and> (\<forall>code. outcome (session_action h sm) = Returned code \<longrightarrow> code = EXIT_FAILURE \<and> code \<noteq> 0)
       \<and> (\<not> throws h (Trap_signals_for_process [sig_term, sig_int])
            \<and> \<not> throws h (Connect_signal_raised signal_raised_handler) \<longrightarrow>
              outcome (session_action h sm) = Returned EXIT_FAILURE
            \<and> last (trace (session_action h sm)) = Effect (Log Error
                 ''Failed to start as either binder or ashmem kernel drivers are not loaded''))"
  using assms
  by (auto simp: session_action_def EXIT_FAILURE_def Let_def perform.simps split: if_splits)

theorem missing_device_aborts_before_dispatch_witness:
  "\<not> fs_exists example_host_no_binder ''/dev/binder''
   \<and> outcome (session_action example_host_no_binder example_members) = Returned EXIT_FAILURE
   \<and> EXIT_FAILURE \<noteq> 0
   \<and> trace (session_action example_host_no_binder example_members) =
        [Called (Trap_signals_for_process [sig_term, sig_int]),
         Called (Connect_signal_raised signal_raised_handler),
         Fs_exists ''/dev/binder'' False,
         Effect (Log Error ''Failed to start as either binder or ashmem kernel drivers are not loaded'')]
   \<and> Called (Dispatch_start_container (container_configuration example_host_no_binder))
        \<notin> set (trace (session_action example_host_no_binder example_members))"
  using missing_device_aborts_before_dispatch [of example_host_no_binder example_members]
  by (simp add: session_action_def example_host_no_binder_simps devices_present_def no_throw_def
      perform.simps EXIT_FAILURE_def)


text \<open>
  C2. In every execution of the action the registration of the signal trap for the
  terminate and interrupt signals is the first step: a trace that is not empty starts
  with it, and the trace is empty only if that registration itself threw. The device
  paths are checked only after the trap is registered and its handler connected. Each
  failure ends the startup: the first call that throws, among the steps of the run
  without failures, ends the run there, with the steps before it done and none after
  it; a run that ends in an exception has reached a call that throws in this way; and
  when the check of the device paths fails, the trace ends with the diagnostic and the
  action returns \<open>EXIT_FAILURE\<close>.
\<close>

theorem signal_trap_first_failures_abort:
  "(trace (session_action h sm) \<noteq> [] \<longrightarrow>
      hd (trace (session_action h sm)) = Called (Trap_signals_for_process [sig_term, sig_int]))
   \<and> (trace (session_action h sm) = [] \<longrightarrow>
      outcome (session_action h sm) = Threw (Trap_signals_for_process [sig_term, sig_int]))
   \<and> ((\<exists>p b. Fs_exists p b \<in> set (trace (session_action h sm))) \<longrightarrow>
      (\<exists>rest. trace (session_action h sm) =
         Called (Trap_signals_for_process [sig_term, sig_int])
         # Called (Connect_signal_raised signal_raised_handler)
         # Fs_exists ''/dev/binder'' (fs_exists h ''/dev/binder'') # rest))
   \<and> (\<forall>c. outcome (session_action h sm) = Threw c \<longrightarrow>
          throws h c \<and>
          prefix (trace (session_action h sm) @ [Called c])
                 (trace (session_action (h\<lparr>throws := no_throw\<rparr>) sm)))
   \<and> ((\<not> fs_exists h ''/dev/binder'' \<or> \<not> fs_exists h ''/dev/ashmem'')
        \<and> \<not> throws h (Trap_signals_for_process [sig_term, sig_int])
        \<and> \<not> throws h (Connect_signal_raised signal_raised_handler) \<longrightarrow>
          outcome (session_action h sm) = Returned EXIT_FAILURE
        \<and> trace (session_action h sm) =
            [Called (Trap_signals_for_process [sig_term, sig_int]),
             Called (Connect_signal_raised signal_raised_handler),
             Fs_exists ''/dev/binder'' (fs_exists h ''/dev/binder'')]
            @ (if fs_exists h ''/dev/binder'' then [Fs_exists ''/dev/ashmem'' False] else [])
            @ [Effect (Log Error
                 ''Failed to start as either binder or ashmem kernel drivers are not loaded'')])
   \<and> (\<forall>pre c post.
        trace (session_action (h\<lparr>throws := no_throw\<rparr>) sm) = pre @ Called c # post
        \<and> throws h c \<and> (\<forall>c'. Called c' \<in> set pre \<longrightarrow> \<not> throws h c') \<longrightarrow>
          trace (session_action h sm) = pre \<and> outcome (session_action h sm) = Threw c)"
proof -
  let ?T = "Trap_signals_for_process [sig_term, sig_int]"
  let ?C = "Connect_signal_raised signal_raised_handler"
  let ?r = "session_action h sm"
  note shape = session_action_trace_shape [of h sm]
  have a: "trace ?r \<noteq> [] \<longrightarrow> hd (trace ?r) = Called ?T"
    using shape by (elim disjE conjE exE) simp_all
  have b: "trace ?r = [] \<longrightarrow> outcome ?r = Threw ?T"
    using shape by (elim disjE conjE exE) simp_all
  have c: "(\<exists>p b. Fs_exists p b \<in> set (trace ?r)) \<longrightarrow>
      (\<exists>rest. trace ?r = Called ?T # Called ?C # Fs_exists ''/dev/binder'' (fs_exists h ''/dev/binder'') # rest)"
    using shape by (elim disjE conjE exE) simp_all
  have d: "\<forall>c. outcome ?r = Threw c \<longrightarrow> throws h c \<and>
          prefix (trace ?r @ [Called c]) (trace (session_action (h\<lparr>throws := no_throw\<rparr>) sm))"
    using threw_prefix by blast
  have e: "(\<not> fs_exists h ''/dev/binder'' \<or> \<not> fs_exists h ''/dev/ashmem'')
        \<and> \<not> throws h ?T \<and> \<not> throws h ?C \<longrightarrow>
          outcome ?r = Returned EXIT_FAILURE
        \<and> trace ?r = [Called ?T, Called ?C, Fs_exists ''/dev/binder'' (fs_exists h ''/dev/binder'')]
            @ (if fs_exists h ''/dev/binder'' then [Fs_exists ''/dev/ashmem'' False] else [])
            @ [Effect (Log Error
                 ''Failed to start as either binder or ashmem kernel drivers are not loaded'')]"
    using session_action_device_missing [of h "[Called ?T, Called ?C]" sm]
    by (simp add: perform_trap_registration)
  have f: "\<forall>pre c post.
        trace (session_action (h\<lparr>throws := no_throw\<rparr>) sm) = pre @ Called c # post
        \<and> throws h c \<and> (\<forall>c'. Called c' \<in> set pre \<longrightarrow> \<not> throws h c') \<longrightarrow>
          trace ?r = pre \<and> outcome ?r = Threw c"
    using first_throw_aborts [of h sm] by blast
  from a b c d e f show ?thesis by (intro conjI)
qed


theorem signal_trap_first_failures_abort_witness:
  "throws example_host_container_throws Container_client
   \<and> trace (session_action example_host_container_throws example_members) =
       [Called (Trap_signals_for_process [sig_term, sig_int]),
        Called (Connect_signal_raised [Log Info ''Signal %i received. Good night.'', Trap_stop]),
        Fs_exists ''/dev/binder'' True,
        Fs_exists ''/dev/ashmem'' True,
        Fs_exists ''/dev/nvidiactl'' False,
        Called (Ensure_paths [''/run/user/1000/anbox/sockets'', ''/run/user/1000/anbox/input'']),
        Called Runtime_create,
        Called Create_dispatcher_for_runtime]
   \<and> outcome (session_action example_host_container_throws example_members) = Threw Container_client
   \<and> outcome (session_action example_host_audio_throws example_members) = Threw Audio_server
   \<and> throws example_host_audio_throws Audio_server
   \<and> hd (trace (session_action example_host_audio_throws example_members))
        = Called (Trap_signals_for_process [sig_term, sig_int])
   \<and> Fs_exists ''/dev/binder'' True \<in> set (trace (session_action example_host_audio_throws example_members))
   \<and> last (trace (session_action example_host_audio_throws example_members)) = Called Policy_set_renderer
   \<and> prefix (trace (session_action example_host_audio_throws example_members) @ [Called Audio_server])
        (trace (session_action (example_host_audio_throws\<lparr>throws := no_throw\<rparr>) example_members))
   \<and> \<not> fs_exists example_host_no_binder ''/dev/binder''
   \<and> outcome (session_action example_host_no_binder example_members) = Returned EXIT_FAILURE"
proof -
  let ?pre = "[Called (Trap_signals_for_process [sig_term, sig_int]),
        Called (Connect_signal_raised [Log Info ''Signal %i received. Good night.'', Trap_stop]),
        Fs_exists ''/dev/binder'' True,
        Fs_exists ''/dev/ashmem'' True,
        Fs_exists ''/dev/nvidiactl'' False,
        Called (Ensure_paths [''/run/user/1000/anbox/sockets'', ''/run/user/1000/anbox/input'']),
        Called Runtime_create,
        Called Create_dispatcher_for_runtime]"
  note w = signal_trap_first_failures_abort [of example_host_container_throws example_members]
  note w6 = w [THEN conjunct2, THEN conjunct2, THEN conjunct2, THEN conjunct2, THEN conjunct2,
               THEN spec, THEN spec, THEN spec, THEN mp]
  have thr: "throws example_host_container_throws Container_client"
    by (simp add: example_host_container_throws_simps throws_only_def)
  have before: "\<forall>c'. Called c' \<in> set ?pre \<longrightarrow> \<not> throws example_host_container_throws c'"
    by (auto simp: example_host_container_throws_simps throws_only_def)
  from w6 [OF conjI [OF example_host_container_throws_full_trace conjI [OF thr before]]]
  have ct: "trace (session_action example_host_container_throws example_members) = ?pre"
    and co: "outcome (session_action example_host_container_throws example_members) = Threw Container_client"
    by simp_all
  have o: "outcome (session_action example_host_audio_throws example_members) = Threw Audio_server"
    by (simp add: session_action_def example_host_audio_throws_simps devices_present_def
        throws_only_def perform.simps startup_calls_def Let_def)
  have l: "last (trace (session_action example_host_audio_throws example_members)) = Called Policy_set_renderer"
    by (simp add: session_action_def example_host_audio_throws_simps devices_present_def
        throws_only_def perform.simps startup_calls_def Let_def)
  have f: "Fs_exists ''/dev/binder'' True \<in> set (trace (session_action example_host_audio_throws example_members))"
    by (simp add: session_action_def example_host_audio_throws_simps devices_present_def
        throws_only_def perform.simps startup_calls_def Let_def)
  have n: "\<not> fs_exists example_host_no_binder ''/dev/binder''"
     "\<not> throws example_host_no_binder (Trap_signals_for_process [sig_term, sig_int])"
     "\<not> throws example_host_no_binder (Connect_signal_raised signal_raised_handler)"
    by (simp_all add: example_host_no_binder_def example_host_def devices_present_def no_throw_def)
  note t = signal_trap_first_failures_abort [of example_host_audio_throws example_members]
  note u = signal_trap_first_failures_abort [of example_host_no_binder example_members]
  from f have ne: "trace (session_action example_host_audio_throws example_members) \<noteq> []"
    by auto
  from t [THEN conjunct1] ne have h: "hd (trace (session_action example_host_audio_throws example_members))
        = Called (Trap_signals_for_process [sig_term, sig_int])"
    by (rule mp)
  from t [THEN conjunct2, THEN conjunct2, THEN conjunct2, THEN conjunct1, THEN spec, THEN mp, OF o]
  have p: "throws example_host_audio_throws Audio_server"
    and q: "prefix (trace (session_action example_host_audio_throws example_members) @ [Called Audio_server])
        (trace (session_action (example_host_audio_throws\<lparr>throws := no_throw\<rparr>) example_members))"
    by simp_all
  from u [THEN conjunct2, THEN conjunct2, THEN conjunct2, THEN conjunct2, THEN conjunct1] n
  have v: "outcome (session_action example_host_no_binder example_members) = Returned EXIT_FAILURE"
    by simp
  show ?thesis
    by (intro conjI) (rule thr, rule ct, rule co, rule o, rule p, rule h, rule f, rule l, rule q,
        rule n(1), rule v)
qed

text \<open>
  C3. The configuration handed to the container start request holds exactly these bind
  mounts, in this order: the socket file of the connector published for the qemu pipe to
  \<open>/dev/qemu_pipe\<close>, the socket file of the connector published for the bridge to
  \<open>/dev/anbox_bridge\<close>, the socket file that the audio server reports to
  \<open>/dev/anbox_audio\<close>, the input device directory to \<open>/dev/input\<close>, and
  \<open>/dev/binder\<close>, \<open>/dev/ashmem\<close> and \<open>/dev/fuse\<close> to themselves. A run hands over at
  most one configuration, this one, and does hand it over when no call throws and the
  two device paths exist. After the request the action only creates the bus and the
  service skeleton, starts the runtime, waits in the signal trap and stops the runtime:
  no step after the request takes or changes the list.
\<close>

theorem dispatched_configuration_bind_mounts:
  "qemu_pipe_connector h
     = published_socket_connector h (socket_dir (system_configuration h) @ ''/qemu_pipe'')
   \<and> bridge_connector h
     = published_socket_connector h (socket_dir (system_configuration h) @ ''/anbox_bridge'')
   \<and> bind_mounts (container_configuration h) =
     [(socket_file (qemu_pipe_connector h), ''/dev/qemu_pipe''),
      (socket_file (bridge_connector h), ''/dev/anbox_bridge''),
      (audio_socket_file h, ''/dev/anbox_audio''),
      (input_device_dir (system_configuration h), ''/dev/input''),
      (''/dev/binder'', ''/dev/binder''),
      (''/dev/ashmem'', ''/dev/ashmem''),
      (''/dev/fuse'', ''/dev/fuse'')]
   \<and> (List.map_filter dispatched (trace (session_action h sm)) = []
      \<or> List.map_filter dispatched (trace (session_action h sm)) = [container_configuration h])
   \<and> ((\<forall>c. \<not> throws h c) \<and> fs_exists h ''/dev/binder'' \<and> fs_exists h ''/dev/ashmem'' \<longrightarrow>
        List.map_filter dispatched (trace (session_action h sm)) = [container_configuration h])
   \<and> (\<forall>cfg. Called (Dispatch_start_container cfg) \<in> set (trace (session_action h sm)) \<longrightarrow>
        cfg = container_configuration h \<and>
        (\<exists>pre post. trace (session_action h sm) = pre @ Called (Dispatch_start_container cfg) # post
            \<and> List.map_filter dispatched pre = []
            \<and> (\<forall>e \<in> set post. after_dispatch e)))"
proof -
  have 1: "bind_mounts (container_configuration h) =
     [(socket_file (qemu_pipe_connector h), ''/dev/qemu_pipe''),
      (socket_file (bridge_connector h), ''/dev/anbox_bridge''),
      (audio_socket_file h, ''/dev/anbox_audio''),
      (input_device_dir (system_configuration h), ''/dev/input''),
      (''/dev/binder'', ''/dev/binder''),
      (''/dev/ashmem'', ''/dev/ashmem''),
      (''/dev/fuse'', ''/dev/fuse'')]"
    by (simp add: container_configuration_def)
  have 3: "(\<forall>c. \<not> throws h c) \<and> fs_exists h ''/dev/binder'' \<and> fs_exists h ''/dev/ashmem'' \<longrightarrow>
        List.map_filter dispatched (trace (session_action h sm)) = [container_configuration h]"
  proof (intro impI, elim conjE)
    assume a: "\<forall>c. \<not> throws h c" "fs_exists h ''/dev/binder''" "fs_exists h ''/dev/ashmem''"
    show "List.map_filter dispatched (trace (session_action h sm)) = [container_configuration h]"
      unfolding session_action_no_throw [OF a]
      by (simp add: map_filter_append dispatched_startup_calls dispatched_effects
          split: option.splits)
  qed
  have 0: "qemu_pipe_connector h
     = published_socket_connector h (socket_dir (system_configuration h) @ ''/qemu_pipe'')
   \<and> bridge_connector h
     = published_socket_connector h (socket_dir (system_configuration h) @ ''/anbox_bridge'')"
    by (simp add: qemu_pipe_connector_def bridge_connector_def qemu_pipe_path_def bridge_path_def)
  from 0 1 dispatched_trace [of h sm] 3 dispatch_decomposition [of _ h sm]
  show ?thesis by blast
qed

theorem dispatched_configuration_bind_mounts_witness:
  "Called (Dispatch_start_container (container_configuration example_host))
     \<in> set (trace (session_action example_host example_members))
   \<and> fs_exists example_host ''/dev/binder'' \<and> fs_exists example_host ''/dev/ashmem''
   \<and> List.map_filter dispatched (trace (session_action example_host example_members))
       = [container_configuration example_host]
   \<and> bind_mounts (container_configuration example_host) =
     [(''/run/user/1000/anbox/sockets/qemu_pipe'', ''/dev/qemu_pipe''),
      (''/run/user/1000/anbox/sockets/anbox_bridge'', ''/dev/anbox_bridge''),
      (''/run/user/1000/anbox/sockets/anbox_audio'', ''/dev/anbox_audio''),
      (''/run/user/1000/anbox/input'', ''/dev/input''),
      (''/dev/binder'', ''/dev/binder''),
      (''/dev/ashmem'', ''/dev/ashmem''),
      (''/dev/fuse'', ''/dev/fuse'')]"
proof -
  note t = dispatched_configuration_bind_mounts [of example_host example_members]
  have m: "Called (Dispatch_start_container (container_configuration example_host))
     \<in> set (trace (session_action example_host example_members))"
    unfolding session_action_no_throw [OF example_host_ok(1,2,3)]
    by (simp add: startup_calls_def)
  from t example_host_ok have d: "List.map_filter dispatched (trace (session_action example_host example_members))
       = [container_configuration example_host]"
    by blast
  from t have "bind_mounts (container_configuration example_host) =
     [(socket_file (qemu_pipe_connector example_host), ''/dev/qemu_pipe''),
      (socket_file (bridge_connector example_host), ''/dev/anbox_bridge''),
      (audio_socket_file example_host, ''/dev/anbox_audio''),
      (input_device_dir (system_configuration example_host), ''/dev/input''),
      (''/dev/binder'', ''/dev/binder''),
      (''/dev/ashmem'', ''/dev/ashmem''),
      (''/dev/fuse'', ''/dev/fuse'')]"
    by blast
  then have b: "bind_mounts (container_configuration example_host) =
     [(''/run/user/1000/anbox/sockets/qemu_pipe'', ''/dev/qemu_pipe''),
      (''/run/user/1000/anbox/sockets/anbox_bridge'', ''/dev/anbox_bridge''),
      (''/run/user/1000/anbox/sockets/anbox_audio'', ''/dev/anbox_audio''),
      (''/run/user/1000/anbox/input'', ''/dev/input''),
      (''/dev/binder'', ''/dev/binder''),
      (''/dev/ashmem'', ''/dev/ashmem''),
      (''/dev/fuse'', ''/dev/fuse'')]"
    by (simp add: example_host_simps example_configuration_def qemu_pipe_connector_def
        bridge_connector_def qemu_pipe_path_def bridge_path_def new_PublishedSocketConnector_def)
  from m d b example_host_ok(2,3) show ?thesis by blast
qed

text \<open>
  C4, as the code has it. When the action gets as far as the check for the nvidia driver
  (the signal trap is registered and both \<open>/dev/binder\<close> and \<open>/dev/ashmem\<close> exist) and
  \<open>/dev/nvidiactl\<close> exists, the action sets \<open>gles_driver_\<close> to \<open>Host\<close>, whatever the
  flag had requested, and logs that it does. When \<open>/dev/nvidiactl\<close> does not exist, the
  members are left as the flags set them. The desktop file hint is never changed, and
  the renderer is always created with the value \<open>gles_driver_\<close> ends with.
\<close>

theorem nvidia_forces_host_driver:
  "(\<not> throws h (Trap_signals_for_process [sig_term, sig_int])
      \<and> \<not> throws h (Connect_signal_raised signal_raised_handler)
      \<and> fs_exists h ''/dev/binder'' \<and> fs_exists h ''/dev/ashmem''
      \<and> fs_exists h ''/dev/nvidiactl'' \<longrightarrow>
        gles_driver (members (session_action h sm)) = Host
      \<and> Effect (Log Info ''Detected properietary nvidia driver; forcing use of the host EGL driver.'')
          \<in> set (trace (session_action h sm)))
   \<and> (\<not> fs_exists h ''/dev/nvidiactl'' \<longrightarrow> members (session_action h sm) = sm)
   \<and> desktop_file_hint (members (session_action h sm)) = desktop_file_hint sm
   \<and> (\<forall>d. Called (Gl_renderer_server d) \<in> set (trace (session_action h sm)) \<longrightarrow>
          d = gles_driver (members (session_action h sm)))"
proof -
  let ?T = "Trap_signals_for_process [sig_term, sig_int]"
  let ?C = "Connect_signal_raised signal_raised_handler"
  have 1: "\<not> throws h ?T \<and> \<not> throws h ?C \<and> fs_exists h ''/dev/binder'' \<and> fs_exists h ''/dev/ashmem''
      \<and> fs_exists h ''/dev/nvidiactl'' \<longrightarrow>
        gles_driver (members (session_action h sm)) = Host
      \<and> Effect (Log Info ''Detected properietary nvidia driver; forcing use of the host EGL driver.'')
          \<in> set (trace (session_action h sm))"
  proof (intro impI, elim conjE)
    assume a: "\<not> throws h ?T" "\<not> throws h ?C" "fs_exists h ''/dev/binder''"
      "fs_exists h ''/dev/ashmem''" "fs_exists h ''/dev/nvidiactl''"
    have p1: "perform (throws h) [?T, ?C] = ([Called ?T, Called ?C], None)"
      using a by (simp add: perform_trap_registration)
    obtain es4 r4 where p4: "perform (throws h)
         (startup_calls h (if fs_exists h ''/dev/nvidiactl'' then Host else gles_driver sm)
            @ [Runtime_start, Trap_run]) = (es4, r4)"
      by (cases "perform (throws h)
         (startup_calls h (if fs_exists h ''/dev/nvidiactl'' then Host else gles_driver sm)
            @ [Runtime_start, Trap_run])")
    show "gles_driver (members (session_action h sm)) = Host
      \<and> Effect (Log Info ''Detected properietary nvidia driver; forcing use of the host EGL driver.'')
          \<in> set (trace (session_action h sm))"
      unfolding session_action_devices_present [OF p1 a(3) a(4) p4]
      using a(5) by (simp add: Let_def split: option.splits)
  qed
  have 2: "\<not> fs_exists h ''/dev/nvidiactl'' \<longrightarrow> members (session_action h sm) = sm"
    by (simp add: members_session_action)
  have 3: "desktop_file_hint (members (session_action h sm)) = desktop_file_hint sm"
    by (simp add: members_session_action)
  from 1 2 3 gl_renderer_driver [of _ h sm] show ?thesis by blast
qed

theorem nvidia_forces_host_driver_witness:
  "fs_exists example_host_nvidia ''/dev/binder'' \<and> fs_exists example_host_nvidia ''/dev/ashmem''
   \<and> fs_exists example_host_nvidia ''/dev/nvidiactl''
   \<and> gles_driver example_members = Translator
   \<and> gles_driver (members (session_action example_host_nvidia example_members)) = Host
   \<and> Called (Gl_renderer_server Host) \<in> set (trace (session_action example_host_nvidia example_members))
   \<and> members (session_action example_host example_members) = example_members"
proof -
  note t = nvidia_forces_host_driver [of example_host_nvidia example_members]
  note u = nvidia_forces_host_driver [of example_host example_members]
  have f: "fs_exists example_host_nvidia ''/dev/binder''" "fs_exists example_host_nvidia ''/dev/ashmem''"
     "fs_exists example_host_nvidia ''/dev/nvidiactl''" "\<forall>c. \<not> throws example_host_nvidia c"
    by (simp_all add: example_host_nvidia_simps devices_present_def no_throw_def)
  from t f have g: "gles_driver (members (session_action example_host_nvidia example_members)) = Host"
    by blast
  have r: "Called (Gl_renderer_server Host) \<in> set (trace (session_action example_host_nvidia example_members))"
    unfolding session_action_no_throw [OF f(4) f(1) f(2)]
    using f(3) by (simp add: startup_calls_def)
  from u example_host_ok(4) have m: "members (session_action example_host example_members) = example_members"
    by blast
  have e: "gles_driver example_members = Translator"
    by (simp add: example_members_def)
  from f g r m e show ?thesis by blast
qed

text \<open>
  C4, as stated, fails on the code: with \<open>/dev/nvidiactl\<close> present and \<open>/dev/binder\<close>
  missing, the action returns at the check of the device paths, before the check for
  the nvidia driver, and the driver requested by the flag is not overwritten.
\<close>

theorem nvidia_without_binder_counterexample:
  "fs_exists example_host_no_binder ''/dev/nvidiactl''
   \<and> gles_driver example_members = Translator
   \<and> gles_driver (members (session_action example_host_no_binder example_members)) \<noteq> Host"
  by (simp add: members_session_action example_host_no_binder_simps devices_present_def
      example_members_def)

text \<open>
  C5. When no call throws, the device paths exist and a trapped signal arrives, the run
  loop of the signal trap returns, the runtime is stopped after it, and the action
  returns \<open>EXIT_SUCCESS\<close>. Every run that reaches the wait in the signal trap and is
  unblocked there stops the runtime last and returns success; such a run never returns
  another code. Every run in which a device path is missing returns, if it returns,
  \<open>EXIT_FAILURE\<close>, and it does return that once the signal trap is registered.
\<close>

theorem signal_unblocks_run_and_succeeds:
  "((\<forall>c. \<not> throws h c) \<and> fs_exists h ''/dev/binder'' \<and> fs_exists h ''/dev/ashmem''
      \<and> pending h = Signal_raised s # rest \<longrightarrow>
        outcome (session_action h sm) = Returned EXIT_SUCCESS
      \<and> (\<exists>pre. trace (session_action h sm) =
            pre @ [Called Runtime_start, Called Trap_run,
                   Effect (Log Info ''Signal %i received. Good night.''), Effect Trap_stop,
                   Called Runtime_stop]))
   \<and> (Called Trap_run \<in> set (trace (session_action h sm)) \<and> pending h \<noteq> []
        \<and> \<not> throws h Runtime_stop \<longrightarrow>
        outcome (session_action h sm) = Returned EXIT_SUCCESS
      \<and> last (trace (session_action h sm)) = Called Runtime_stop)
   \<and> (Called Trap_run \<in> set (trace (session_action h sm)) \<longrightarrow>
        (\<forall>code. outcome (session_action h sm) = Returned code \<longrightarrow> code = EXIT_SUCCESS))
   \<and> (\<not> fs_exists h ''/dev/binder'' \<or> \<not> fs_exists h ''/dev/ashmem'' \<longrightarrow>
        (\<forall>code. outcome (session_action h sm) = Returned code \<longrightarrow> code = EXIT_FAILURE)
      \<and> outcome (session_action h sm) \<noteq> Blocked)
   \<and> ((\<not> fs_exists h ''/dev/binder'' \<or> \<not> fs_exists h ''/dev/ashmem'')
        \<and> \<not> throws h (Trap_signals_for_process [sig_term, sig_int])
        \<and> \<not> throws h (Connect_signal_raised signal_raised_handler) \<longrightarrow>
        outcome (session_action h sm) = Returned EXIT_FAILURE)
   \<and> EXIT_SUCCESS = 0 \<and> EXIT_FAILURE \<noteq> EXIT_SUCCESS"
proof -
  let ?T = "Trap_signals_for_process [sig_term, sig_int]"
  let ?C = "Connect_signal_raised signal_raised_handler"
  let ?r = "session_action h sm"
  have 1: "(\<forall>c. \<not> throws h c) \<and> fs_exists h ''/dev/binder'' \<and> fs_exists h ''/dev/ashmem''
      \<and> pending h = Signal_raised s # rest \<longrightarrow>
        outcome ?r = Returned EXIT_SUCCESS
      \<and> (\<exists>pre. trace ?r =
            pre @ [Called Runtime_start, Called Trap_run,
                   Effect (Log Info ''Signal %i received. Good night.''), Effect Trap_stop,
                   Called Runtime_stop])"
  proof (intro impI, elim conjE)
    assume a: "\<forall>c. \<not> throws h c" "fs_exists h ''/dev/binder''" "fs_exists h ''/dev/ashmem''"
      and p: "pending h = Signal_raised s # rest"
    have f: "trap_run fire (pending h) = Some signal_raised_handler"
      unfolding p by (simp only: trap_run_fire) (simp add: fire_def)
    show "outcome ?r = Returned EXIT_SUCCESS
      \<and> (\<exists>pre. trace ?r =
            pre @ [Called Runtime_start, Called Trap_run,
                   Effect (Log Info ''Signal %i received. Good night.''), Effect Trap_stop,
                   Called Runtime_stop])"
      unfolding session_action_no_throw [OF a] f
      by (simp add: signal_raised_handler_def)
  qed
  have 2: "Called Trap_run \<in> set (trace ?r) \<and> pending h \<noteq> [] \<and> \<not> throws h Runtime_stop \<longrightarrow>
        outcome ?r = Returned EXIT_SUCCESS \<and> last (trace ?r) = Called Runtime_stop"
  proof (intro impI, elim conjE)
    assume reach: "Called Trap_run \<in> set (trace ?r)" and p: "pending h \<noteq> []"
      and s: "\<not> throws h Runtime_stop"
    from p obtain fired where f: "trap_run fire (pending h) = Some fired"
      using trap_run_fire_iff [of "pending h"] by auto
    show "outcome ?r = Returned EXIT_SUCCESS \<and> last (trace ?r) = Called Runtime_stop"
      unfolding reaches_trap_run [OF reach] f using s by simp
  qed
  have 3: "Called Trap_run \<in> set (trace ?r) \<longrightarrow>
        (\<forall>code. outcome ?r = Returned code \<longrightarrow> code = EXIT_SUCCESS)"
  proof (intro impI allI)
    fix code
    assume reach: "Called Trap_run \<in> set (trace ?r)" and o: "outcome ?r = Returned code"
    from o show "code = EXIT_SUCCESS"
      unfolding reaches_trap_run [OF reach] by (simp split: option.splits if_splits)
  qed
  have 4: "\<not> fs_exists h ''/dev/binder'' \<or> \<not> fs_exists h ''/dev/ashmem'' \<longrightarrow>
        (\<forall>code. outcome ?r = Returned code \<longrightarrow> code = EXIT_FAILURE) \<and> outcome ?r \<noteq> Blocked"
  proof
    assume m: "\<not> fs_exists h ''/dev/binder'' \<or> \<not> fs_exists h ''/dev/ashmem''"
    consider (t) "throws h ?T" | (c) "\<not> throws h ?T" "throws h ?C"
      | (m) "\<not> throws h ?T" "\<not> throws h ?C"
      by blast
    then show "(\<forall>code. outcome ?r = Returned code \<longrightarrow> code = EXIT_FAILURE) \<and> outcome ?r \<noteq> Blocked"
    proof cases
      case t
      then show ?thesis
        using session_action_first_throws [of h "[]" ?T sm] by (simp add: perform_trap_registration)
    next
      case c
      then show ?thesis
        using session_action_first_throws [of h "[Called ?T]" ?C sm] by (simp add: perform_trap_registration)
    next
      case m
      with \<open>\<not> fs_exists h ''/dev/binder'' \<or> \<not> fs_exists h ''/dev/ashmem''\<close> show ?thesis
        using session_action_device_missing [of h "[Called ?T, Called ?C]" sm]
        by (simp add: perform_trap_registration)
    qed
  qed
  have 5: "(\<not> fs_exists h ''/dev/binder'' \<or> \<not> fs_exists h ''/dev/ashmem'')
        \<and> \<not> throws h ?T \<and> \<not> throws h ?C \<longrightarrow> outcome ?r = Returned EXIT_FAILURE"
    using session_action_device_missing [of h "[Called ?T, Called ?C]" sm]
    by (simp add: perform_trap_registration)
  have 6: "EXIT_SUCCESS = 0 \<and> EXIT_FAILURE \<noteq> EXIT_SUCCESS"
    by (simp add: EXIT_SUCCESS_def EXIT_FAILURE_def)
  from 1 2 3 4 5 6 show ?thesis by blast
qed

theorem signal_unblocks_run_and_succeeds_witness:
  "fs_exists example_host ''/dev/binder'' \<and> fs_exists example_host ''/dev/ashmem''
   \<and> pending example_host = [Signal_raised sig_int]
   \<and> outcome (session_action example_host example_members) = Returned EXIT_SUCCESS
   \<and> Called Trap_run \<in> set (trace (session_action example_host example_members))
   \<and> last (trace (session_action example_host example_members)) = Called Runtime_stop
   \<and> \<not> fs_exists example_host_no_binder ''/dev/binder''
   \<and> outcome (session_action example_host_no_binder example_members) = Returned EXIT_FAILURE"
proof -
  note t = signal_unblocks_run_and_succeeds [of example_host sig_int "[]" example_members]
  note u = signal_unblocks_run_and_succeeds [of example_host_no_binder sig_int "[]" example_members]
  have p: "pending example_host = [Signal_raised sig_int]"
    by (simp add: example_host_simps)
  from t example_host_ok p have o: "outcome (session_action example_host example_members) = Returned EXIT_SUCCESS"
    by blast
  from t example_host_ok p obtain pre where "trace (session_action example_host example_members) =
            pre @ [Called Runtime_start, Called Trap_run,
                   Effect (Log Info ''Signal %i received. Good night.''), Effect Trap_stop,
                   Called Runtime_stop]"
    by blast
  then have r: "Called Trap_run \<in> set (trace (session_action example_host example_members))"
    and l: "last (trace (session_action example_host example_members)) = Called Runtime_stop"
    by simp_all
  have n: "\<not> fs_exists example_host_no_binder ''/dev/binder''"
     "\<not> throws example_host_no_binder (Trap_signals_for_process [sig_term, sig_int])"
     "\<not> throws example_host_no_binder (Connect_signal_raised signal_raised_handler)"
    by (simp_all add: example_host_no_binder_simps devices_present_def no_throw_def)
  with u have v: "outcome (session_action example_host_no_binder example_members) = Returned EXIT_FAILURE"
    by blast
  from example_host_ok(2,3) p o r l n(1) v show ?thesis by blast
qed

text \<open>
  C6. The handler registered with the container client logs a warning and stops the
  signal trap. When the connection to the container is lost, the run loop of the signal
  trap returns with it, the runtime is stopped and the action returns \<open>EXIT_SUCCESS\<close>.
  A run registers at most one terminate handler, this one, and has registered it
  whenever it reaches the wait in the signal trap.
\<close>

theorem connection_loss_handler_stops_trap:
  "terminate_handler = [Log Warning ''Lost connection to container manager, terminating.'', Trap_stop]
   \<and> fire Connection_lost = terminate_handler
   \<and> trap_run fire (Connection_lost # rest) = Some terminate_handler
   \<and> (List.map_filter registered (trace (session_action h sm)) = []
      \<or> List.map_filter registered (trace (session_action h sm)) = [terminate_handler])
   \<and> (Called Trap_run \<in> set (trace (session_action h sm)) \<longrightarrow>
        List.map_filter registered (trace (session_action h sm)) = [terminate_handler])
   \<and> ((\<forall>c. \<not> throws h c) \<and> fs_exists h ''/dev/binder'' \<and> fs_exists h ''/dev/ashmem''
        \<and> pending h = Connection_lost # rest \<longrightarrow>
        outcome (session_action h sm) = Returned EXIT_SUCCESS
      \<and> (\<exists>pre. trace (session_action h sm) =
            pre @ [Called Runtime_start, Called Trap_run,
                   Effect (Log Warning ''Lost connection to container manager, terminating.''),
                   Effect Trap_stop, Called Runtime_stop]))"
proof -
  let ?r = "session_action h sm"
  have 1: "terminate_handler = [Log Warning ''Lost connection to container manager, terminating.'', Trap_stop]"
    by (simp add: terminate_handler_def)
  have 2: "fire Connection_lost = terminate_handler"
    by (simp add: fire_def)
  have 3: "trap_run fire (Connection_lost # rest) = Some terminate_handler"
    by (simp only: trap_run_fire 2)
  have 5: "Called Trap_run \<in> set (trace ?r) \<longrightarrow> List.map_filter registered (trace ?r) = [terminate_handler]"
  proof
    assume reach: "Called Trap_run \<in> set (trace ?r)"
    have e: "\<And>xs. List.map_filter registered (map Effect xs) = []"
      by (simp add: map_filter_Nil_iff)
    have s: "\<And>d. List.map_filter registered (map Called (startup_calls h d)) = [terminate_handler]"
      by (simp add: startup_calls_def List.map_filter_def)
    show "List.map_filter registered (trace ?r) = [terminate_handler]"
      unfolding reaches_trap_run [OF reach]
      by (simp add: map_filter_append e s split: option.splits)
  qed
  have 6: "(\<forall>c. \<not> throws h c) \<and> fs_exists h ''/dev/binder'' \<and> fs_exists h ''/dev/ashmem''
        \<and> pending h = Connection_lost # rest \<longrightarrow>
        outcome ?r = Returned EXIT_SUCCESS
      \<and> (\<exists>pre. trace ?r =
            pre @ [Called Runtime_start, Called Trap_run,
                   Effect (Log Warning ''Lost connection to container manager, terminating.''),
                   Effect Trap_stop, Called Runtime_stop])"
  proof (intro impI, elim conjE)
    assume a: "\<forall>c. \<not> throws h c" "fs_exists h ''/dev/binder''" "fs_exists h ''/dev/ashmem''"
      and p: "pending h = Connection_lost # rest"
    have f: "trap_run fire (pending h) = Some terminate_handler"
      unfolding p by (rule 3)
    show "outcome ?r = Returned EXIT_SUCCESS
      \<and> (\<exists>pre. trace ?r =
            pre @ [Called Runtime_start, Called Trap_run,
                   Effect (Log Warning ''Lost connection to container manager, terminating.''),
                   Effect Trap_stop, Called Runtime_stop])"
      unfolding session_action_no_throw [OF a] f
      by (simp add: terminate_handler_def)
  qed
  from 1 2 3 registered_trace [of h sm] 5 6 show ?thesis by blast
qed

theorem connection_loss_handler_stops_trap_witness:
  "fs_exists example_host_connection_lost ''/dev/binder''
   \<and> fs_exists example_host_connection_lost ''/dev/ashmem''
   \<and> pending example_host_connection_lost = [Connection_lost, Signal_raised sig_term]
   \<and> outcome (session_action example_host_connection_lost example_members) = Returned EXIT_SUCCESS
   \<and> Called Trap_run \<in> set (trace (session_action example_host_connection_lost example_members))
   \<and> Effect (Log Warning ''Lost connection to container manager, terminating.'')
        \<in> set (trace (session_action example_host_connection_lost example_members))
   \<and> last (trace (session_action example_host_connection_lost example_members)) = Called Runtime_stop
   \<and> List.map_filter registered (trace (session_action example_host_connection_lost example_members))
        = [terminate_handler]"
proof -
  note t = connection_loss_handler_stops_trap
             [of "[Signal_raised sig_term]" example_host_connection_lost example_members]
  have f: "fs_exists example_host_connection_lost ''/dev/binder''"
     "fs_exists example_host_connection_lost ''/dev/ashmem''"
     "\<forall>c. \<not> throws example_host_connection_lost c"
     "pending example_host_connection_lost = [Connection_lost, Signal_raised sig_term]"
    by (simp_all add: example_host_connection_lost_simps devices_present_def no_throw_def)
  from t f have o: "outcome (session_action example_host_connection_lost example_members) = Returned EXIT_SUCCESS"
    by blast
  from t f obtain pre where "trace (session_action example_host_connection_lost example_members) =
            pre @ [Called Runtime_start, Called Trap_run,
                   Effect (Log Warning ''Lost connection to container manager, terminating.''),
                   Effect Trap_stop, Called Runtime_stop]"
    by blast
  then have r: "Called Trap_run \<in> set (trace (session_action example_host_connection_lost example_members))"
    and w: "Effect (Log Warning ''Lost connection to container manager, terminating.'')
        \<in> set (trace (session_action example_host_connection_lost example_members))"
    and l: "last (trace (session_action example_host_connection_lost example_members)) = Called Runtime_stop"
    by simp_all
  from t r have g: "List.map_filter registered (trace (session_action example_host_connection_lost example_members))
        = [terminate_handler]"
    by blast
  from f(1,2,4) o r w l g show ?thesis by blast
qed

section \<open>The claims about commands and flags\<close>

text \<open>
  C8. When the two flags are allocated at different addresses, the constructor of the
  session command succeeds and registers exactly two flags, \<open>desktop_file_hint\<close> and
  \<open>gles-driver\<close>, both taking a value; the set holds them in the order of their
  addresses, and with the option \<open>help\<close> that \<open>run\<close> adds first they are the options
  given to the parser. The notifier of \<open>desktop_file_hint\<close> writes to the desktop file
  hint the first word of the value given, the characters between the leading white space
  and the next white space (blank, tab, line feed, vertical tab, form feed, carriage
  return), and leaves the hint as it was when the value is white space only; the notifier
  of \<open>gles-driver\<close> writes to the driver what the reading of the value gives. When the
  arguments parse and no help is asked for, \<open>run\<close> first notifies the flags found and
  then invokes the action on the members as the notifiers left them: in the trace every
  notification stands before the invocation, which stands before the steps of the
  action, and the first of these is the registration of the signal trap unless that
  registration throws.
\<close>

theorem session_flags_applied_before_action:
  assumes "a_hint \<noteq> a_driver"
  shows "\<exists>cmd. SessionManager read_driver h a_hint a_driver = Inr cmd
     \<and> length (flags cmd) = 2
     \<and> map (\<lambda>f. (address f, as_string (flag_name f), with_value f)) (flags cmd)
         = (if a_hint < a_driver
            then [(a_hint, ''desktop_file_hint'', True), (a_driver, ''gles-driver'', True)]
            else [(a_driver, ''gles-driver'', True), (a_hint, ''desktop_file_hint'', True)])
     \<and> options_description (flags cmd)
         = (''help'', False)
           # (if a_hint < a_driver
              then [(''desktop_file_hint'', True), (''gles-driver'', True)]
              else [(''gles-driver'', True), (''desktop_file_hint'', True)])
     \<and> (\<forall>pre w post.
           (\<forall>c \<in> set pre. c \<in> {CHR '' '', CHR 0x09, CHR 0x0A, CHR 0x0B, CHR 0x0C, CHR 0x0D}) \<and> w \<noteq> [] \<and> (\<forall>c \<in> set w. c \<notin> {CHR '' '', CHR 0x09, CHR 0x0A, CHR 0x0B, CHR 0x0C, CHR 0x0D})
           \<and> (post = [] \<or> hd post \<in> {CHR '' '', CHR 0x09, CHR 0x0A, CHR 0x0B, CHR 0x0C, CHR 0x0D}) \<longrightarrow>
             notify_all (flags cmd) [(''desktop_file_hint'', pre @ w @ post)] st
               = (st\<lparr>desktop_file_hint := w\<rparr>, [Notified ''desktop_file_hint'' (pre @ w @ post)])
           \<and> notify_all (flags cmd) [(''desktop_file_hint'', pre @ w @ post), (''gles-driver'', v2)] st
               = (st\<lparr>desktop_file_hint := w, gles_driver := read_driver v2 (gles_driver st)\<rparr>,
                  [Notified ''desktop_file_hint'' (pre @ w @ post), Notified ''gles-driver'' v2]))
     \<and> (\<forall>v. (\<forall>c \<in> set v. c \<in> {CHR '' '', CHR 0x09, CHR 0x0A, CHR 0x0B, CHR 0x0C, CHR 0x0D}) \<longrightarrow>
             notify_all (flags cmd) [(''desktop_file_hint'', v)] st
               = (st, [Notified ''desktop_file_hint'' v])
           \<and> notify_all (flags cmd) [(''desktop_file_hint'', v), (''gles-driver'', v2)] st
               = (st\<lparr>gles_driver := read_driver v2 (gles_driver st)\<rparr>,
                  [Notified ''desktop_file_hint'' v, Notified ''gles-driver'' v2]))
     \<and> notify_all (flags cmd) [(''gles-driver'', v2)] st
         = (st\<lparr>gles_driver := read_driver v2 (gles_driver st)\<rparr>, [Notified ''gles-driver'' v2])
     \<and> (\<forall>po ctxt vm unrecognized.
           po (options_description (flags cmd)) (args ctxt) = Po_parsed False vm unrecognized \<longrightarrow>
             trace (run po cmd ctxt st) =
               snd (notify_all (flags cmd) vm st) @ [Action_invoked unrecognized]
               @ trace (session_action h (fst (notify_all (flags cmd) vm st)))
           \<and> outcome (run po cmd ctxt st) = outcome (session_action h (fst (notify_all (flags cmd) vm st)))
           \<and> members (run po cmd ctxt st) = members (session_action h (fst (notify_all (flags cmd) vm st))))
     \<and> (\<forall>vm. \<forall>e \<in> set (snd (notify_all (flags cmd) vm st)). \<exists>k v. e = Notified k v)
     \<and> (\<not> throws h (Trap_signals_for_process [sig_term, sig_int]) \<longrightarrow>
           (\<forall>sm. \<exists>rest. trace (session_action h sm)
                          = Called (Trap_signals_for_process [sig_term, sig_int]) # rest))"
proof -
  let ?cmd = "\<lparr>name = Scs ''run'', usage = Scs ''run'', description = Scs ''Run the the anbox system'',
          flags =
            (if a_hint < a_driver
             then [\<lparr>address = a_hint, flag_name = Scs ''desktop_file_hint'',
                    flag_description = Scs ''Desktop file hint for QtMir/Unity8'',
                    is_set = False, with_value = True,
                    notify = (\<lambda>s sm. sm\<lparr>desktop_file_hint := extract_string s (desktop_file_hint sm)\<rparr>)\<rparr>,
                   \<lparr>address = a_driver, flag_name = Scs ''gles-driver'',
                    flag_description = Scs (''Which GLES driver to use. Possible values are 'host' or'translator'' @ [CHR 0x27]),
                    is_set = False, with_value = True,
                    notify = (\<lambda>s sm. sm\<lparr>gles_driver := read_driver s (gles_driver sm)\<rparr>)\<rparr>]
             else [\<lparr>address = a_driver, flag_name = Scs ''gles-driver'',
                    flag_description = Scs (''Which GLES driver to use. Possible values are 'host' or'translator'' @ [CHR 0x27]),
                    is_set = False, with_value = True,
                    notify = (\<lambda>s sm. sm\<lparr>gles_driver := read_driver s (gles_driver sm)\<rparr>)\<rparr>,
                   \<lparr>address = a_hint, flag_name = Scs ''desktop_file_hint'',
                    flag_description = Scs ''Desktop file hint for QtMir/Unity8'',
                    is_set = False, with_value = True,
                    notify = (\<lambda>s sm. sm\<lparr>desktop_file_hint := extract_string s (desktop_file_hint sm)\<rparr>)\<rparr>]),
          action = Some (\<lambda>ctxt. session_action h)\<rparr>"
  have c1: "SessionManager read_driver h a_hint a_driver = Inr ?cmd"
    using assms by (rule SessionManager_flags)
  have c2: "length (flags ?cmd) = 2"
    by simp
  have c3: "map (\<lambda>f. (address f, as_string (flag_name f), with_value f)) (flags ?cmd)
         = (if a_hint < a_driver
            then [(a_hint, ''desktop_file_hint'', True), (a_driver, ''gles-driver'', True)]
            else [(a_driver, ''gles-driver'', True), (a_hint, ''desktop_file_hint'', True)])"
    by simp
  have c4: "options_description (flags ?cmd)
         = (''help'', False)
           # (if a_hint < a_driver
              then [(''desktop_file_hint'', True), (''gles-driver'', True)]
              else [(''gles-driver'', True), (''desktop_file_hint'', True)])"
    by (simp add: options_description_def)
  have c5: "(\<forall>pre w post.
           (\<forall>c \<in> set pre. c \<in> {CHR '' '', CHR 0x09, CHR 0x0A, CHR 0x0B, CHR 0x0C, CHR 0x0D}) \<and> w \<noteq> [] \<and> (\<forall>c \<in> set w. c \<notin> {CHR '' '', CHR 0x09, CHR 0x0A, CHR 0x0B, CHR 0x0C, CHR 0x0D})
           \<and> (post = [] \<or> hd post \<in> {CHR '' '', CHR 0x09, CHR 0x0A, CHR 0x0B, CHR 0x0C, CHR 0x0D}) \<longrightarrow>
             notify_all (flags ?cmd) [(''desktop_file_hint'', pre @ w @ post)] st
               = (st\<lparr>desktop_file_hint := w\<rparr>, [Notified ''desktop_file_hint'' (pre @ w @ post)])
           \<and> notify_all (flags ?cmd) [(''desktop_file_hint'', pre @ w @ post), (''gles-driver'', v2)] st
               = (st\<lparr>desktop_file_hint := w, gles_driver := read_driver v2 (gles_driver st)\<rparr>,
                  [Notified ''desktop_file_hint'' (pre @ w @ post), Notified ''gles-driver'' v2]))"
  proof (intro allI impI, elim conjE)
    fix pre w post :: string
    assume "\<forall>c \<in> set pre. c \<in> {CHR '' '', CHR 0x09, CHR 0x0A, CHR 0x0B, CHR 0x0C, CHR 0x0D}" "w \<noteq> []" "\<forall>c \<in> set w. c \<notin> {CHR '' '', CHR 0x09, CHR 0x0A, CHR 0x0B, CHR 0x0C, CHR 0x0D}"
      "post = [] \<or> hd post \<in> {CHR '' '', CHR 0x09, CHR 0x0A, CHR 0x0B, CHR 0x0C, CHR 0x0D}"
    then have "extract_string (pre @ w @ post) (desktop_file_hint st) = w"
      by (intro extract_string_word) (simp_all only: isspace_iff simp_thms)
    then show "notify_all (flags ?cmd) [(''desktop_file_hint'', pre @ w @ post)] st
               = (st\<lparr>desktop_file_hint := w\<rparr>, [Notified ''desktop_file_hint'' (pre @ w @ post)])
           \<and> notify_all (flags ?cmd) [(''desktop_file_hint'', pre @ w @ post), (''gles-driver'', v2)] st
               = (st\<lparr>desktop_file_hint := w, gles_driver := read_driver v2 (gles_driver st)\<rparr>,
                  [Notified ''desktop_file_hint'' (pre @ w @ post), Notified ''gles-driver'' v2])"
      by simp
  qed
  have c6: "(\<forall>v. (\<forall>c \<in> set v. c \<in> {CHR '' '', CHR 0x09, CHR 0x0A, CHR 0x0B, CHR 0x0C, CHR 0x0D}) \<longrightarrow>
             notify_all (flags ?cmd) [(''desktop_file_hint'', v)] st
               = (st, [Notified ''desktop_file_hint'' v])
           \<and> notify_all (flags ?cmd) [(''desktop_file_hint'', v), (''gles-driver'', v2)] st
               = (st\<lparr>gles_driver := read_driver v2 (gles_driver st)\<rparr>,
                  [Notified ''desktop_file_hint'' v, Notified ''gles-driver'' v2]))"
  proof (intro allI impI)
    fix v :: string
    assume "\<forall>c \<in> set v. c \<in> {CHR '' '', CHR 0x09, CHR 0x0A, CHR 0x0B, CHR 0x0C, CHR 0x0D}"
    then have "extract_string v (desktop_file_hint st) = desktop_file_hint st"
      by (intro extract_string_blank) (simp only: isspace_iff)
    then show "notify_all (flags ?cmd) [(''desktop_file_hint'', v)] st
               = (st, [Notified ''desktop_file_hint'' v])
           \<and> notify_all (flags ?cmd) [(''desktop_file_hint'', v), (''gles-driver'', v2)] st
               = (st\<lparr>gles_driver := read_driver v2 (gles_driver st)\<rparr>,
                  [Notified ''desktop_file_hint'' v, Notified ''gles-driver'' v2])"
      by simp
  qed
  have c7: "notify_all (flags ?cmd) [(''gles-driver'', v2)] st
         = (st\<lparr>gles_driver := read_driver v2 (gles_driver st)\<rparr>, [Notified ''gles-driver'' v2])"
    by simp
  have c8: "(\<forall>po ctxt vm unrecognized.
           po (options_description (flags ?cmd)) (args ctxt) = Po_parsed False vm unrecognized \<longrightarrow>
             trace (run po ?cmd ctxt st) =
               snd (notify_all (flags ?cmd) vm st) @ [Action_invoked unrecognized]
               @ trace (session_action h (fst (notify_all (flags ?cmd) vm st)))
           \<and> outcome (run po ?cmd ctxt st) = outcome (session_action h (fst (notify_all (flags ?cmd) vm st)))
           \<and> members (run po ?cmd ctxt st) = members (session_action h (fst (notify_all (flags ?cmd) vm st))))"
    by (intro allI impI conjI) (simp_all add: run_parsed)
  have c9: "(\<forall>vm. \<forall>e \<in> set (snd (notify_all (flags ?cmd) vm st)). \<exists>k v. e = Notified k v)"
    by (intro allI) (rule notify_all_events)
  have c10: "(\<not> throws h (Trap_signals_for_process [sig_term, sig_int]) \<longrightarrow>
           (\<forall>sm. \<exists>rest. trace (session_action h sm)
                          = Called (Trap_signals_for_process [sig_term, sig_int]) # rest))"
    by (intro allI impI) (rule session_action_first_step)
  show ?thesis
    by (rule exI [of _ ?cmd]) (intro conjI c1 c2 c3 c4 c5 c6 c7 c8 c9 c10)
qed

theorem session_flags_applied_before_action_witness:
  "(2::nat) \<noteq> 1
   \<and> SessionManager example_read_driver example_host 2 1 = Inr example_command
   \<and> map (\<lambda>f. (address f, as_string (flag_name f), with_value f)) (flags example_command)
       = [(1, ''gles-driver'', True), (2, ''desktop_file_hint'', True)]
   \<and> example_po (options_description (flags example_command))
        (args \<lparr>args = [''--desktop_file_hint=anbox.desktop'', ''--gles-driver=host'']\<rparr>)
       = Po_parsed False [(''desktop_file_hint'', ''anbox.desktop''), (''gles-driver'', ''host'')] []
   \<and> trace (run example_po example_command
               \<lparr>args = [''--desktop_file_hint=anbox.desktop'', ''--gles-driver=host'']\<rparr> example_members)
       = [Notified ''desktop_file_hint'' ''anbox.desktop'', Notified ''gles-driver'' ''host'',
          Action_invoked [],
          Called (Trap_signals_for_process [sig_term, sig_int]),
          Called (Connect_signal_raised signal_raised_handler),
          Fs_exists ''/dev/binder'' True, Fs_exists ''/dev/ashmem'' True,
          Fs_exists ''/dev/nvidiactl'' False]
         @ map Called (startup_calls example_host Host @ [Runtime_start, Trap_run])
         @ [Effect (Log Info ''Signal %i received. Good night.''), Effect Trap_stop,
            Called Runtime_stop]
   \<and> outcome (run example_po example_command
               \<lparr>args = [''--desktop_file_hint=anbox.desktop'', ''--gles-driver=host'']\<rparr> example_members)
       = Returned EXIT_SUCCESS
   \<and> members (run example_po example_command
               \<lparr>args = [''--desktop_file_hint=anbox.desktop'', ''--gles-driver=host'']\<rparr> example_members)
       = example_members\<lparr>desktop_file_hint := ''anbox.desktop'', gles_driver := Host\<rparr>
   \<and> notify_all (flags example_command) [(''desktop_file_hint'', ''  anbox.desktop --single-window'')]
        example_members
       = (example_members\<lparr>desktop_file_hint := ''anbox.desktop''\<rparr>,
          [Notified ''desktop_file_hint'' ''  anbox.desktop --single-window''])
   \<and> notify_all (flags example_command) [(''desktop_file_hint'', ''  '')] example_members
       = (example_members, [Notified ''desktop_file_hint'' ''  ''])"
proof -
  let ?ctxt = "\<lparr>args = [''--desktop_file_hint=anbox.desktop'', ''--gles-driver=host'']\<rparr>"
  let ?vm = "[(''desktop_file_hint'', ''anbox.desktop''), (''gles-driver'', ''host'')]"
  let ?st = "example_members\<lparr>desktop_file_hint := ''anbox.desktop'', gles_driver := Host\<rparr>"
  have ne: "(2::nat) \<noteq> 1"
    by simp
  have sm: "SessionManager example_read_driver example_host 2 1 = Inr example_command"
    by (simp add: example_command_def SessionManager_eq)
  from session_flags_applied_before_action [OF ne, where read_driver = example_read_driver
      and h = example_host and st = example_members and ?v2.0 = "''host''"]
  obtain cmd where c: "SessionManager example_read_driver example_host 2 1 = Inr cmd"
    and fl: "map (\<lambda>f. (address f, as_string (flag_name f), with_value f)) (flags cmd)
         = (if (2::nat) < 1
            then [(2, ''desktop_file_hint'', True), (1, ''gles-driver'', True)]
            else [(1, ''gles-driver'', True), (2, ''desktop_file_hint'', True)])"
    and od: "options_description (flags cmd)
         = (''help'', False)
           # (if (2::nat) < 1
              then [(''desktop_file_hint'', True), (''gles-driver'', True)]
              else [(''gles-driver'', True), (''desktop_file_hint'', True)])"
    and wd: "\<forall>pre w post.
           (\<forall>c \<in> set pre. c \<in> {CHR '' '', CHR 0x09, CHR 0x0A, CHR 0x0B, CHR 0x0C, CHR 0x0D}) \<and> w \<noteq> [] \<and> (\<forall>c \<in> set w. c \<notin> {CHR '' '', CHR 0x09, CHR 0x0A, CHR 0x0B, CHR 0x0C, CHR 0x0D})
           \<and> (post = [] \<or> hd post \<in> {CHR '' '', CHR 0x09, CHR 0x0A, CHR 0x0B, CHR 0x0C, CHR 0x0D}) \<longrightarrow>
             notify_all (flags cmd) [(''desktop_file_hint'', pre @ w @ post)] example_members
               = (example_members\<lparr>desktop_file_hint := w\<rparr>, [Notified ''desktop_file_hint'' (pre @ w @ post)])
           \<and> notify_all (flags cmd) [(''desktop_file_hint'', pre @ w @ post), (''gles-driver'', ''host'')] example_members
               = (example_members\<lparr>desktop_file_hint := w,
                    gles_driver := example_read_driver ''host'' (gles_driver example_members)\<rparr>,
                  [Notified ''desktop_file_hint'' (pre @ w @ post), Notified ''gles-driver'' ''host''])"
    and bl: "\<forall>v. (\<forall>c \<in> set v. c \<in> {CHR '' '', CHR 0x09, CHR 0x0A, CHR 0x0B, CHR 0x0C, CHR 0x0D}) \<longrightarrow>
             notify_all (flags cmd) [(''desktop_file_hint'', v)] example_members
               = (example_members, [Notified ''desktop_file_hint'' v])
           \<and> notify_all (flags cmd) [(''desktop_file_hint'', v), (''gles-driver'', ''host'')] example_members
               = (example_members\<lparr>gles_driver := example_read_driver ''host'' (gles_driver example_members)\<rparr>,
                  [Notified ''desktop_file_hint'' v, Notified ''gles-driver'' ''host''])"
    and r: "\<forall>po ctxt vm unrecognized.
           po (options_description (flags cmd)) (args ctxt) = Po_parsed False vm unrecognized \<longrightarrow>
             trace (run po cmd ctxt example_members) =
               snd (notify_all (flags cmd) vm example_members) @ [Action_invoked unrecognized]
               @ trace (session_action example_host (fst (notify_all (flags cmd) vm example_members)))
           \<and> outcome (run po cmd ctxt example_members)
               = outcome (session_action example_host (fst (notify_all (flags cmd) vm example_members)))
           \<and> members (run po cmd ctxt example_members)
               = members (session_action example_host (fst (notify_all (flags cmd) vm example_members)))"
    by (elim exE conjE) (rule that; assumption)
  from c sm have e: "cmd = example_command"
    by simp
  from fl have fl': "map (\<lambda>f. (address f, as_string (flag_name f), with_value f)) (flags cmd)
       = [(1, ''gles-driver'', True), (2, ''desktop_file_hint'', True)]"
    by simp
  have p: "example_po (options_description (flags cmd)) (args ?ctxt) = Po_parsed False ?vm []"
    unfolding od by (simp add: example_po_def example_option_def map_filter_simps)
  have d: "example_read_driver ''host'' (gles_driver example_members) = Host"
    by (simp add: example_read_driver_def)
  have w1: "(\<forall>c \<in> set []. c \<in> {CHR '' '', CHR 0x09, CHR 0x0A, CHR 0x0B, CHR 0x0C, CHR 0x0D}) \<and> ''anbox.desktop'' \<noteq> []
           \<and> (\<forall>c \<in> set ''anbox.desktop''. c \<notin> {CHR '' '', CHR 0x09, CHR 0x0A, CHR 0x0B, CHR 0x0C, CHR 0x0D})
           \<and> (([] :: string) = [] \<or> hd [] \<in> {CHR '' '', CHR 0x09, CHR 0x0A, CHR 0x0B, CHR 0x0C, CHR 0x0D})"
    by simp
  note n1 = wd [rule_format, of "[]" "''anbox.desktop''" "[]", OF w1, THEN conjunct2,
                unfolded append_Nil append_Nil2 d]
  have w2: "(\<forall>c \<in> set ''  ''. c \<in> {CHR '' '', CHR 0x09, CHR 0x0A, CHR 0x0B, CHR 0x0C, CHR 0x0D}) \<and> ''anbox.desktop'' \<noteq> []
           \<and> (\<forall>c \<in> set ''anbox.desktop''. c \<notin> {CHR '' '', CHR 0x09, CHR 0x0A, CHR 0x0B, CHR 0x0C, CHR 0x0D})
           \<and> ('' --single-window'' = [] \<or> hd '' --single-window'' \<in> {CHR '' '', CHR 0x09, CHR 0x0A, CHR 0x0B, CHR 0x0C, CHR 0x0D})"
    by simp
  note n2 = wd [rule_format, of "''  ''" "''anbox.desktop''" "'' --single-window''", OF w2,
                THEN conjunct1, unfolded append.simps]
  have w3: "\<forall>c \<in> set ''  ''. c \<in> {CHR '' '', CHR 0x09, CHR 0x0A, CHR 0x0B, CHR 0x0C, CHR 0x0D}"
    by simp
  note n3 = bl [THEN spec, of "''  ''", THEN mp, OF w3, THEN conjunct1]
  note a = session_action_no_throw [OF example_host_ok(1,2,3), of ?st]
  have f: "trap_run fire (pending example_host) = Some (fire (Signal_raised sig_int))"
    by (simp only: example_host_simps trap_run_fire)
  have ta: "trace (session_action example_host ?st) =
         [Called (Trap_signals_for_process [sig_term, sig_int]),
          Called (Connect_signal_raised signal_raised_handler),
          Fs_exists ''/dev/binder'' True, Fs_exists ''/dev/ashmem'' True,
          Fs_exists ''/dev/nvidiactl'' False]
         @ map Called (startup_calls example_host Host @ [Runtime_start, Trap_run])
         @ [Effect (Log Info ''Signal %i received. Good night.''), Effect Trap_stop,
            Called Runtime_stop]"
    unfolding a f using example_host_ok(4) by (simp add: fire_def signal_raised_handler_def)
  have o: "outcome (session_action example_host ?st) = Returned EXIT_SUCCESS"
    unfolding a f by simp
  have m: "members (session_action example_host ?st) = ?st"
    unfolding a using example_host_ok(4) by simp
  note r' = r [rule_format, of example_po ?ctxt ?vm "[]", OF p, unfolded n1 fst_conv snd_conv o m]
  have t: "trace (run example_po cmd ?ctxt example_members) =
       [Notified ''desktop_file_hint'' ''anbox.desktop'', Notified ''gles-driver'' ''host'',
          Action_invoked [],
          Called (Trap_signals_for_process [sig_term, sig_int]),
          Called (Connect_signal_raised signal_raised_handler),
          Fs_exists ''/dev/binder'' True, Fs_exists ''/dev/ashmem'' True,
          Fs_exists ''/dev/nvidiactl'' False]
         @ map Called (startup_calls example_host Host @ [Runtime_start, Trap_run])
         @ [Effect (Log Info ''Signal %i received. Good night.''), Effect Trap_stop,
            Called Runtime_stop]"
    using r' [THEN conjunct1] unfolding ta by simp
  show ?thesis
    unfolding e [symmetric]
    by (intro conjI) (rule ne, rule c, rule fl', rule p, rule t, rule r' [THEN conjunct2, THEN conjunct1],
        rule r' [THEN conjunct2, THEN conjunct2], rule n2, rule n3)
qed



end
